theory Spec2Isabelle
  imports Complex_Main
begin

section \<open>Closed-form option pricing: the model\<close>

text \<open>
  The C source computes with \<open>double\<close> and checks its arguments and intermediates with
  \<open>assert\<close>. Three readings of it are given.

  \<^bold>\<open>The exact reading\<close> (this section up to the American approximation). A real number
  stands for the double of that value, and every library call is the function it
  approximates (\<open>exp\<close>, \<open>log\<close> as \<open>ln\<close>, \<open>sqrt\<close>, \<open>fabs\<close> as the absolute value, \<open>fmax\<close> as
  \<open>max\<close>, \<open>pow\<close> on a positive base as \<open>powr\<close>); the decimal constants are the rationals
  they spell. Rounding and underflow are not part of this reading. What is part of it:
  \<^item> \<open>assert(c)\<close> with \<open>c\<close> false terminates the process (assertions are compiled in,
    \<open>NDEBUG\<close> is not defined). The source has no error value: a function that asserts is
    modelled with the result type \<open>abort + real\<close>, where \<open>Inl a\<close> says that the process
    was terminated at the assertion \<open>a\<close> and nothing was returned;
  \<^item> overflow: a result of magnitude above \<open>DBL_MAX\<close> is an infinity in the source, so
    \<open>is_sane x\<close> is \<open>\<bar>x\<bar> \<le> DBL_MAX\<close>, and the operations that can overflow on
    validated arguments (\<open>exp\<close>, \<open>pow\<close> and the products and sums behind them) are checked
    or computed in the type \<open>dbl\<close>, which has the infinities and NaN;
  \<^item> a quotient by zero and a logarithm of a non-positive number are infinite or NaN;
    such a value fails the next \<open>is_sane\<close> assertion it meets (the one at the head of
    \<open>cnd\<close>, or the one on the intermediate itself), and the model terminates there.

  \<^bold>\<open>The reading without assertions\<close> (\<open>blackscholes_ndebug\<close>): the same source compiled
  with \<open>NDEBUG\<close>, computed in \<open>dbl\<close>.

  \<^bold>\<open>The rounded reading\<close> (\<open>cnd_fl\<close>, \<open>Beta_fl\<close>): every operation rounded to the nearest
  binary64 number.
\<close>

datatype param = Price | Strike | Time | InterestRate | CostOfCarry | Volatility

datatype abort =
    AssertValid param  \<comment> \<open>the \<open>assert_valid_*\<close> macro on this argument failed\<close>
  | AssertExtra        \<comment> \<open>one of the two further assertions of \<open>blackscholes\<close> failed\<close>
  | AssertSane         \<comment> \<open>an \<open>assert(is_sane(...))\<close> failed on a non-finite value\<close>

subsection \<open>The validation macros\<close>

definition DBL_MAX :: real where
  "DBL_MAX = (2 - 1 / 2 ^ 52) * 2 ^ 1023"

definition is_sane :: "real \<Rightarrow> bool" where
  \<comment> \<open>\<open>!_isnan(a) && _finite(a)\<close>, of the double whose exact value would be \<open>a\<close>\<close>
  "is_sane a \<longleftrightarrow> \<bar>a\<bar> \<le> DBL_MAX"

definition VOLATILITY_MIN :: real where "VOLATILITY_MIN = 0.0000001"
definition VOLATILITY_MAX :: real where "VOLATILITY_MAX = 100.99999"
definition TIME_MIN :: real where "TIME_MIN = 1.0 / (253.0 * 24.0)"
definition TIME_MAX :: real where "TIME_MAX = 20.0"
definition INTEREST_RATE_MIN :: real where "INTEREST_RATE_MIN = 0.0"
definition INTEREST_RATE_MAX :: real where "INTEREST_RATE_MAX = 1000.0"
definition PRICE_MIN :: real where "PRICE_MIN = 0.000001"
definition PRICE_MAX :: real where "PRICE_MAX = 1000000000000.0"
definition STRIKE_MIN :: real where "STRIKE_MIN = PRICE_MIN"
definition STRIKE_MAX :: real where "STRIKE_MAX = PRICE_MAX"
definition COST_OF_CARRY_MIN :: real where "COST_OF_CARRY_MIN = - INTEREST_RATE_MAX"
definition COST_OF_CARRY_MAX :: real where "COST_OF_CARRY_MAX = INTEREST_RATE_MAX"

text \<open>The condition of each \<open>assert_valid_*\<close> macro.\<close>

definition valid_price :: "real \<Rightarrow> bool" where
  "valid_price S \<longleftrightarrow> is_sane S \<and> S \<ge> PRICE_MIN \<and> S \<le> PRICE_MAX"

definition valid_strike :: "real \<Rightarrow> bool" where
  "valid_strike X \<longleftrightarrow> is_sane X \<and> X \<ge> STRIKE_MIN \<and> X \<le> STRIKE_MAX"

definition valid_time :: "real \<Rightarrow> bool" where
  "valid_time T \<longleftrightarrow> is_sane T \<and> T \<ge> TIME_MIN \<and> T \<le> TIME_MAX"

definition valid_interest_rate :: "real \<Rightarrow> bool" where
  "valid_interest_rate r \<longleftrightarrow> is_sane r \<and> r \<ge> INTEREST_RATE_MIN \<and> r \<le> INTEREST_RATE_MAX"

definition valid_cost_of_carry :: "real \<Rightarrow> bool" where
  "valid_cost_of_carry b \<longleftrightarrow> is_sane b \<and> b \<ge> COST_OF_CARRY_MIN \<and> b \<le> COST_OF_CARRY_MAX"

definition valid_volatility :: "real \<Rightarrow> bool" where
  "valid_volatility v \<longleftrightarrow> is_sane v \<and> v \<ge> VOLATILITY_MIN \<and> v \<le> VOLATILITY_MAX"

subsection \<open>Doubles with their special values\<close>

text \<open>
  A double is a finite value, an infinity or NaN. The operations follow IEEE 754 on the
  special values and are exact on finite ones, up to overflow; zero is read as \<open>+0\<close>.
\<close>

datatype dbl = Finite real | PInf | NInf | NaN

definition fin :: "real \<Rightarrow> dbl" where
  \<comment> \<open>the double of an exact result: an infinity when it overflows\<close>
  "fin x = (if x > DBL_MAX then PInf else if x < - DBL_MAX then NInf else Finite x)"

fun is_finite :: "dbl \<Rightarrow> bool" where
  "is_finite (Finite x) = True"
| "is_finite _ = False"

fun dneg :: "dbl \<Rightarrow> dbl" where
  "dneg (Finite x) = Finite (- x)"
| "dneg PInf = NInf"
| "dneg NInf = PInf"
| "dneg NaN = NaN"

fun dadd :: "dbl \<Rightarrow> dbl \<Rightarrow> dbl" where
  "dadd (Finite x) (Finite y) = fin (x + y)"
| "dadd NaN _ = NaN"
| "dadd _ NaN = NaN"
| "dadd PInf NInf = NaN"
| "dadd NInf PInf = NaN"
| "dadd PInf _ = PInf"
| "dadd _ PInf = PInf"
| "dadd NInf _ = NInf"
| "dadd _ NInf = NInf"

definition dsub :: "dbl \<Rightarrow> dbl \<Rightarrow> dbl" where
  "dsub a b = dadd a (dneg b)"

fun dmul :: "dbl \<Rightarrow> dbl \<Rightarrow> dbl" where
  "dmul (Finite x) (Finite y) = fin (x * y)"
| "dmul NaN _ = NaN"
| "dmul _ NaN = NaN"
| "dmul (Finite x) PInf = (if x = 0 then NaN else if x > 0 then PInf else NInf)"
| "dmul (Finite x) NInf = (if x = 0 then NaN else if x > 0 then NInf else PInf)"
| "dmul PInf (Finite y) = (if y = 0 then NaN else if y > 0 then PInf else NInf)"
| "dmul NInf (Finite y) = (if y = 0 then NaN else if y > 0 then NInf else PInf)"
| "dmul PInf PInf = PInf"
| "dmul NInf NInf = PInf"
| "dmul PInf NInf = NInf"
| "dmul NInf PInf = NInf"

fun ddiv :: "dbl \<Rightarrow> dbl \<Rightarrow> dbl" where
  "ddiv (Finite x) (Finite y) =
     (if y = 0 then (if x = 0 then NaN else if x > 0 then PInf else NInf) else fin (x / y))"
| "ddiv NaN _ = NaN"
| "ddiv _ NaN = NaN"
| "ddiv (Finite x) _ = Finite 0"
| "ddiv PInf (Finite y) = (if y \<ge> 0 then PInf else NInf)"
| "ddiv NInf (Finite y) = (if y \<ge> 0 then NInf else PInf)"
| "ddiv _ _ = NaN"

fun dlog :: "dbl \<Rightarrow> dbl" where
  "dlog (Finite x) = (if x > 0 then Finite (ln x) else if x = 0 then NInf else NaN)"
| "dlog PInf = PInf"
| "dlog _ = NaN"

fun dexp :: "dbl \<Rightarrow> dbl" where
  "dexp (Finite x) = fin (exp x)"
| "dexp PInf = PInf"
| "dexp NInf = Finite 0"
| "dexp NaN = NaN"

fun dsqrt :: "dbl \<Rightarrow> dbl" where
  "dsqrt (Finite x) = (if x \<ge> 0 then Finite (sqrt x) else NaN)"
| "dsqrt PInf = PInf"
| "dsqrt _ = NaN"

fun dabs :: "dbl \<Rightarrow> dbl" where
  "dabs (Finite x) = Finite \<bar>x\<bar>"
| "dabs NaN = NaN"
| "dabs _ = PInf"

fun dlt0 :: "dbl \<Rightarrow> bool" where
  \<comment> \<open>the comparison \<open>x < 0.0\<close>, false on NaN\<close>
  "dlt0 (Finite x) = (x < 0)"
| "dlt0 NInf = True"
| "dlt0 _ = False"

subsection \<open>Math primitives\<close>

definition one_div_sqrt2pi :: real where
  "one_div_sqrt2pi = 0.39894228040143270286"

definition pow2 :: "real \<Rightarrow> real" where
  "pow2 n = n * n"

definition normdist :: "real \<Rightarrow> real" where
  "normdist x = one_div_sqrt2pi * exp (- ((x * x) / 2.0))"

definition a1 :: real where "a1 = 0.31938153"
definition a2 :: real where "a2 = - 0.356563782"
definition a3 :: real where "a3 = 1.781477937"
definition a4 :: real where "a4 = - 1.821255978"
definition a5 :: real where "a5 = 1.330274429"

definition a12345k :: "real \<Rightarrow> real" where
  \<comment> \<open>the local \<open>a12345k\<close> of \<open>cnd\<close>, as a function of the local \<open>K\<close>\<close>
  "a12345k K =
       (a1 * K)
     + (a2 * K * K)
     + (a3 * K * K * K)
     + (a4 * K * K * K * K)
     + (a5 * K * K * K * K * K)"

definition cnd :: "real \<Rightarrow> real" where
  \<comment> \<open>both \<open>assert(is_sane(x))\<close> hold of every real \<open>x\<close>; \<open>1.0 + 0.2316419 * L\<close> is at least 1\<close>
  "cnd x =
     (let L = \<bar>x\<bar>;
          K = 1.0 / (1.0 + (0.2316419 * L));
          result = 1.0 - one_div_sqrt2pi * exp (- pow2 L / 2.0) * a12345k K
      in if x < 0.0 then 1.0 - result else result)"

definition cnd_tail :: "real \<Rightarrow> real" where
  \<comment> \<open>what \<open>cnd\<close> subtracts from 1 to form \<open>result\<close>, as a function of \<open>L\<close> (used in proofs only)\<close>
  "cnd_tail L = one_div_sqrt2pi * exp (- pow2 L / 2) * a12345k (1 / (1 + 0.2316419 * L))"

subsection \<open>European options\<close>

definition vst :: "real \<Rightarrow> real \<Rightarrow> real" where
  \<comment> \<open>the local \<open>vst = v * sqrt(T)\<close> of \<open>blackscholes\<close>, \<open>gbs\<close> and \<open>phi\<close>\<close>
  "vst v T = v * sqrt T"

definition d1 :: "real \<Rightarrow> real \<Rightarrow> real \<Rightarrow> real \<Rightarrow> real \<Rightarrow> real" where
  \<comment> \<open>the local \<open>d1\<close> of \<open>gbs\<close>; \<open>blackscholes\<close> computes it with \<open>r\<close> in the place of \<open>b\<close>\<close>
  "d1 S X T b v = (ln (S / X) + (b + pow2 v / 2.0) * T) / vst v T"

definition d2 :: "real \<Rightarrow> real \<Rightarrow> real \<Rightarrow> real \<Rightarrow> real \<Rightarrow> real" where
  \<comment> \<open>the local \<open>d2\<close>\<close>
  "d2 S X T b v = d1 S X T b v - vst v T"

definition blackscholes :: "int \<Rightarrow> real \<Rightarrow> real \<Rightarrow> real \<Rightarrow> real \<Rightarrow> real \<Rightarrow> abort + real" where
  "blackscholes fCall S X T r v =
     (if \<not> valid_price S then Inl (AssertValid Price)
      else if \<not> valid_strike X then Inl (AssertValid Strike)
      else if \<not> valid_time T then Inl (AssertValid Time)
      else if \<not> valid_interest_rate r then Inl (AssertValid InterestRate)
      else if \<not> valid_volatility v then Inl (AssertValid Volatility)
      else if \<not> r \<ge> 0.0 then Inl AssertExtra
      else if \<not> (v > 0.0 \<and> v \<le> 100.0) then Inl AssertExtra
      else if X = 0 \<or> S / X \<le> 0 \<or> vst v T = 0 then Inl AssertSane
      else
        let d1 = (ln (S / X) + (r + pow2 v / 2.0) * T) / vst v T;
            d2 = d1 - vst v T
        in if fCall \<noteq> 0
           then Inr (S * cnd d1 - X * exp (- r * T) * cnd d2)
           else Inr (X * exp (- r * T) * cnd (- d2) - S * cnd (- d1)))"

definition gbs :: "int \<Rightarrow> real \<Rightarrow> real \<Rightarrow> real \<Rightarrow> real \<Rightarrow> real \<Rightarrow> real \<Rightarrow> abort + real" where
  \<comment> \<open>\<open>exp((b - r) * T)\<close> and its product with \<open>S\<close> can overflow; the infinity reaches
      \<open>result\<close> and fails \<open>assert(is_sane(result))\<close>\<close>
  "gbs fCall S X T r b v =
     (if \<not> valid_price S then Inl (AssertValid Price)
      else if \<not> valid_strike X then Inl (AssertValid Strike)
      else if \<not> valid_time T then Inl (AssertValid Time)
      else if \<not> valid_interest_rate r then Inl (AssertValid InterestRate)
      else if \<not> valid_cost_of_carry b then Inl (AssertValid CostOfCarry)
      else if \<not> valid_volatility v then Inl (AssertValid Volatility)
      else if \<not> is_sane (vst v T) then Inl AssertSane
      else if X = 0 \<or> S / X \<le> 0 \<or> vst v T = 0 then Inl AssertSane
      else
        let d1 = (ln (S / X) + (b + pow2 v / 2.0) * T) / vst v T;
            d2 = d1 - vst v T;
            ebrt = exp ((b - r) * T);
            ert = exp (- r * T);
            result = (if fCall \<noteq> 0
                      then S * ebrt * cnd d1 - X * ert * cnd d2
                      else X * ert * cnd (- d2) - S * ebrt * cnd (- d1))
        in if \<not> is_sane ebrt \<or> \<not> is_sane (S * ebrt) \<or> \<not> is_sane result
           then Inl AssertSane else Inr result)"

subsection \<open>The American approximation\<close>

definition phi ::
  "real \<Rightarrow> real \<Rightarrow> real \<Rightarrow> real \<Rightarrow> real \<Rightarrow> real \<Rightarrow> real \<Rightarrow> real \<Rightarrow> abort + dbl" where
  \<comment> \<open>the returned product is not asserted: \<open>exp(lambda)\<close>, the two powers and the
      products can overflow, and the value returned can be infinite or NaN\<close>
  "phi S T gamma_val H I r b v =
     (if \<not> valid_price S then Inl (AssertValid Price)
      else if \<not> valid_time T then Inl (AssertValid Time)
      else if \<not> valid_interest_rate r then Inl (AssertValid InterestRate)
      else if \<not> valid_volatility v then Inl (AssertValid Volatility)
      else
        let vv = v * v;
            lambda = (- r + gamma_val * b + 0.5 * gamma_val * (gamma_val - 1.0) * vv) * T
        in if H = 0 \<or> S / H \<le> 0 \<or> vst v T = 0 \<or> vv = 0 \<or> I / S \<le> 0
           then Inl AssertSane
           else
             let d = - (ln (S / H) + (b + (gamma_val - 0.5) * vv) * T) / vst v T;
                 kappa = 2.0 * b / vv + (2.0 * gamma_val - 1.0)
             in Inr (dmul (dmul (fin (exp lambda)) (fin (S powr gamma_val)))
                       (dsub (Finite (cnd d))
                          (dmul (fin ((I / S) powr kappa))
                             (Finite (cnd (d - 2.0 * ln (I / S) / vst v T)))))))"

text \<open>The locals of the early-exercise branch of \<open>BSAmericanCallApprox\<close>, in the order
  the source computes them.\<close>

definition Beta :: "real \<Rightarrow> real \<Rightarrow> real \<Rightarrow> real" where
  "Beta r b v = (0.5 - b / (v * v)) + sqrt (pow2 (b / (v * v) - 0.5) + 2.0 * r / (v * v))"

definition BInfinity :: "real \<Rightarrow> real \<Rightarrow> real \<Rightarrow> real \<Rightarrow> real" where
  "BInfinity X r b v = Beta r b v / (Beta r b v - 1.0) * X"

definition B0 :: "real \<Rightarrow> real \<Rightarrow> real \<Rightarrow> real" where
  "B0 X r b = max X (r / (r - b) * X)"

definition ht :: "real \<Rightarrow> real \<Rightarrow> real \<Rightarrow> real \<Rightarrow> real \<Rightarrow> real" where
  "ht X T r b v = - (b * T + 2.0 * v * sqrt T) * B0 X r b / (BInfinity X r b v - B0 X r b)"

definition trigger :: "real \<Rightarrow> real \<Rightarrow> real \<Rightarrow> real \<Rightarrow> real \<Rightarrow> real" where
  \<comment> \<open>the local \<open>I\<close>\<close>
  "trigger X T r b v =
     B0 X r b + (BInfinity X r b v - B0 X r b) * (1.0 - exp (ht X T r b v))"

definition bind_abort :: "abort + dbl \<Rightarrow> (dbl \<Rightarrow> abort + dbl) \<Rightarrow> abort + dbl" where
  \<comment> \<open>a callee terminated at an assertion never returns to the caller\<close>
  "bind_abort m f = (case m of Inl a \<Rightarrow> Inl a | Inr y \<Rightarrow> f y)"

definition returned :: "abort + real \<Rightarrow> abort + dbl" where
  \<comment> \<open>the result of a function that asserts its result sane, as a double\<close>
  "returned m = (case m of Inl a \<Rightarrow> Inl a | Inr y \<Rightarrow> Inr (Finite y))"

definition BSAmericanCallApprox ::
  "real \<Rightarrow> real \<Rightarrow> real \<Rightarrow> real \<Rightarrow> real \<Rightarrow> real \<Rightarrow> abort + dbl" where
  \<comment> \<open>the value returned by the last branch is not asserted and can be infinite or NaN\<close>
  "BSAmericanCallApprox S X T r b v =
     (if \<not> valid_price S then Inl (AssertValid Price)
      else if \<not> valid_strike X then Inl (AssertValid Strike)
      else if \<not> valid_time T then Inl (AssertValid Time)
      else if \<not> valid_interest_rate r then Inl (AssertValid InterestRate)
      else if \<not> valid_volatility v then Inl (AssertValid Volatility)
      else if b \<ge> r then returned (gbs 1 S X T r b v)
      else if \<not> is_sane (v * v) then Inl AssertSane
      else if v * v = 0 \<or> pow2 (b / (v * v) - 0.5) + 2.0 * r / (v * v) < 0
              \<or> \<not> is_sane (Beta r b v)
        then Inl AssertSane  \<comment> \<open>\<open>assert(is_sane(Beta))\<close>\<close>
      else if Beta r b v - 1.0 = 0 \<or> \<not> is_sane (Beta r b v / (Beta r b v - 1.0))
              \<or> \<not> is_sane (BInfinity X r b v)
        then Inl AssertSane  \<comment> \<open>\<open>assert(is_sane(BInfinity))\<close>\<close>
      else if r - b = 0 \<or> \<not> is_sane (B0 X r b)
        then Inl AssertSane  \<comment> \<open>\<open>assert(is_sane(B0))\<close>\<close>
      else if BInfinity X r b v - B0 X r b = 0
              \<or> \<not> is_sane (- (b * T + 2.0 * v * sqrt T) * B0 X r b)
              \<or> \<not> is_sane (ht X T r b v)
        then Inl AssertSane  \<comment> \<open>\<open>assert(is_sane(ht))\<close>\<close>
      else if \<not> is_sane (exp (ht X T r b v)) \<or> \<not> is_sane (trigger X T r b v)
        then Inl AssertSane  \<comment> \<open>\<open>assert(is_sane(I))\<close>\<close>
      else
        let I = trigger X T r b v in
        if S \<ge> I then Inr (Finite (S - X))
        else
          let alpha = dmul (Finite (I - X)) (fin (I powr (- Beta r b v))) in
          bind_abort (phi S T (Beta r b v) I I r b v) (\<lambda>p1.
          bind_abort (phi S T 1.0 I I r b v) (\<lambda>p2.
          bind_abort (phi S T 1.0 X I r b v) (\<lambda>p3.
          bind_abort (phi S T 0.0 I I r b v) (\<lambda>p4.
          bind_abort (phi S T 0.0 X I r b v) (\<lambda>p5.
            Inr (dadd
                  (dsub
                    (dsub
                      (dadd
                        (dsub (dmul alpha (fin (S powr Beta r b v)))
                              (dmul alpha p1))
                        p2)
                      p3)
                    (dmul (Finite X) p4))
                  (dmul (Finite X) p5))))))))"

definition BSAmericanApprox ::
  "int \<Rightarrow> real \<Rightarrow> real \<Rightarrow> real \<Rightarrow> real \<Rightarrow> real \<Rightarrow> real \<Rightarrow> abort + real" where
  \<comment> \<open>\<open>assert(is_sane(result))\<close> lets only a finite value through\<close>
  "BSAmericanApprox fCall S X T r b v =
     (if \<not> valid_price S then Inl (AssertValid Price)
      else if \<not> valid_strike X then Inl (AssertValid Strike)
      else if \<not> valid_time T then Inl (AssertValid Time)
      else if \<not> valid_interest_rate r then Inl (AssertValid InterestRate)
      else if \<not> valid_volatility v then Inl (AssertValid Volatility)
      else
        case (if fCall \<noteq> 0
              then BSAmericanCallApprox S X T r b v
              else BSAmericanCallApprox X S T (r - b) (- b) v) of
          Inl a \<Rightarrow> Inl a
        | Inr (Finite result) \<Rightarrow> if is_sane result then Inr result else Inl AssertSane
        | Inr _ \<Rightarrow> Inl AssertSane)"

text \<open>The option kind as the source passes it: any non-zero \<open>fCall\<close> is a call.\<close>

abbreviation Call :: int where "Call \<equiv> 1"
abbreviation Put :: int where "Put \<equiv> 0"

text \<open>All six arguments inside the ranges of the validation macros.\<close>

definition valid_inputs :: "real \<Rightarrow> real \<Rightarrow> real \<Rightarrow> real \<Rightarrow> real \<Rightarrow> real \<Rightarrow> bool" where
  "valid_inputs S X T r b v \<longleftrightarrow>
     valid_price S \<and> valid_strike X \<and> valid_time T \<and> valid_interest_rate r
     \<and> valid_cost_of_carry b \<and> valid_volatility v"

subsection \<open>The plain Black-Scholes pricer without assertions\<close>

text \<open>
  Compiled with \<open>NDEBUG\<close> every \<open>assert\<close> of the source is empty. \<open>cnd_d\<close> and
  \<open>blackscholes_ndebug\<close> are \<open>cnd\<close> and \<open>blackscholes\<close> read that way, on finite arguments,
  with every operation in \<open>dbl\<close>.
\<close>

definition cnd_d :: "dbl \<Rightarrow> dbl" where
  "cnd_d x =
     (let L = dabs x;
          K = ddiv (Finite 1.0) (dadd (Finite 1.0) (dmul (Finite 0.2316419) L));
          a12345k =
            dadd (dadd (dadd (dadd
              (dmul (Finite a1) K)
              (dmul (dmul (Finite a2) K) K))
              (dmul (dmul (dmul (Finite a3) K) K) K))
              (dmul (dmul (dmul (dmul (Finite a4) K) K) K) K))
              (dmul (dmul (dmul (dmul (dmul (Finite a5) K) K) K) K) K);
          result = dsub (Finite 1.0)
                     (dmul (dmul (Finite one_div_sqrt2pi)
                                 (dexp (ddiv (dneg (dmul L L)) (Finite 2.0))))
                           a12345k)
      in if dlt0 x then dsub (Finite 1.0) result else result)"

definition blackscholes_ndebug ::
  "int \<Rightarrow> real \<Rightarrow> real \<Rightarrow> real \<Rightarrow> real \<Rightarrow> real \<Rightarrow> dbl" where
  "blackscholes_ndebug fCall S X T r v =
     (let vst = dmul (Finite v) (dsqrt (Finite T));
          d1 = ddiv
                 (dadd (dlog (ddiv (Finite S) (Finite X)))
                       (dmul (dadd (Finite r) (ddiv (dmul (Finite v) (Finite v)) (Finite 2.0)))
                             (Finite T)))
                 vst;
          d2 = dsub d1 vst;
          xert = dmul (Finite X) (dexp (dmul (dneg (Finite r)) (Finite T)))
      in if fCall \<noteq> 0
         then dsub (dmul (Finite S) (cnd_d d1)) (dmul xert (cnd_d d2))
         else dsub (dmul xert (cnd_d (dneg d2))) (dmul (Finite S) (cnd_d (dneg d1))))"

subsection \<open>Rounded arithmetic\<close>

text \<open>
  \<open>rnd x\<close> is the binary64 number nearest to \<open>x\<close>, ties to even: 53 significant bits,
  subnormal below \<open>2\<^sup>-\<^sup>1\<^sup>0\<^sup>2\<^sup>2\<close> (overflow is not part of it). In the rounded reading a real
  stands for a binary64 number, every arithmetic operation and \<open>sqrt\<close> return the rounded
  exact result, every decimal literal is rounded, and \<open>exp\<close> is taken as correctly rounded.
\<close>

definition rne :: "real \<Rightarrow> int" where
  "rne y = (let f = \<lfloor>y\<rfloor>
            in if y - of_int f < 1 / 2 then f
               else if y - of_int f > 1 / 2 then f + 1
               else if even f then f else f + 1)"

definition ulp_exp :: "real \<Rightarrow> int" where
  "ulp_exp x = max \<lfloor>log 2 \<bar>x\<bar>\<rfloor> (- 1022) - 52"

definition rnd :: "real \<Rightarrow> real" where
  "rnd x = (if x = 0 then 0
            else of_int (rne (x / 2 powr of_int (ulp_exp x))) * 2 powr of_int (ulp_exp x))"


definition Beta_fl :: "real \<Rightarrow> real \<Rightarrow> real \<Rightarrow> real" where
  "Beta_fl r b v =
     (let vv = rnd (v * v);
          q = rnd (b / vv);
          h = rnd (q - 0.5)
      in rnd (rnd (0.5 - q) + rnd (sqrt (rnd (rnd (h * h) + rnd (rnd (2.0 * r) / vv))))))"

definition BInfinity_fl :: "real \<Rightarrow> real \<Rightarrow> real \<Rightarrow> real \<Rightarrow> dbl" where
  \<comment> \<open>\<open>Beta / (Beta - 1.0) * X\<close> on the rounded \<open>Beta\<close>, with the special values\<close>
  "BInfinity_fl X r b v =
     dmul (ddiv (Finite (Beta_fl r b v)) (Finite (rnd (Beta_fl r b v - 1.0)))) (Finite X)"

section \<open>Properties\<close>

subsection \<open>The validated ranges\<close>

lemmas range_defs =
  VOLATILITY_MIN_def VOLATILITY_MAX_def TIME_MIN_def TIME_MAX_def
  INTEREST_RATE_MIN_def INTEREST_RATE_MAX_def PRICE_MIN_def PRICE_MAX_def
  STRIKE_MIN_def STRIKE_MAX_def COST_OF_CARRY_MIN_def COST_OF_CARRY_MAX_def

lemma DBL_MAX_large: "1000000000000000000 \<le> DBL_MAX"
  by (simp add: DBL_MAX_def)

lemma is_sane_small: "- 1000000000000000000 \<le> x \<Longrightarrow> x \<le> 1000000000000000000 \<Longrightarrow> is_sane x"
  using DBL_MAX_large by (simp add: is_sane_def abs_le_iff)

lemma fin_small: "- 1000000000000000000 \<le> x \<Longrightarrow> x \<le> 1000000000000000000 \<Longrightarrow> fin x = Finite x"
  using DBL_MAX_large by (auto simp: fin_def)

lemma is_sane_pos: "0 < a \<Longrightarrow> a \<le> 1000000000000 \<Longrightarrow> is_sane a"
  by (rule is_sane_small) simp_all

lemma is_sane_diff:
  "0 < a \<Longrightarrow> a \<le> 1000000000000 \<Longrightarrow> 0 < c \<Longrightarrow> c \<le> 1000000000000 \<Longrightarrow> is_sane (a - c)"
  by (rule is_sane_small) simp_all

text \<open>Inside a validated range a value is finite, so the range alone decides.\<close>

lemma valid_price_iff: "valid_price S \<longleftrightarrow> PRICE_MIN \<le> S \<and> S \<le> PRICE_MAX"
  unfolding valid_price_def range_defs
  by (rule iffI, simp) (intro conjI is_sane_small; simp)

lemma valid_strike_iff: "valid_strike X \<longleftrightarrow> STRIKE_MIN \<le> X \<and> X \<le> STRIKE_MAX"
  unfolding valid_strike_def range_defs
  by (rule iffI, simp) (intro conjI is_sane_small; simp)

lemma valid_time_iff: "valid_time T \<longleftrightarrow> TIME_MIN \<le> T \<and> T \<le> TIME_MAX"
  unfolding valid_time_def range_defs
  by (rule iffI, simp) (intro conjI is_sane_small; simp)

lemma valid_interest_rate_iff:
  "valid_interest_rate r \<longleftrightarrow> INTEREST_RATE_MIN \<le> r \<and> r \<le> INTEREST_RATE_MAX"
  unfolding valid_interest_rate_def range_defs
  by (rule iffI, simp) (intro conjI is_sane_small; simp)

lemma valid_cost_of_carry_iff:
  "valid_cost_of_carry b \<longleftrightarrow> COST_OF_CARRY_MIN \<le> b \<and> b \<le> COST_OF_CARRY_MAX"
  unfolding valid_cost_of_carry_def range_defs
  by (rule iffI, simp) (intro conjI is_sane_small; simp)

lemma valid_volatility_iff:
  "valid_volatility v \<longleftrightarrow> VOLATILITY_MIN \<le> v \<and> v \<le> VOLATILITY_MAX"
  unfolding valid_volatility_def range_defs
  by (rule iffI, simp) (intro conjI is_sane_small; simp)

lemmas valid_defs =
  valid_price_iff valid_strike_iff valid_time_iff valid_interest_rate_iff
  valid_cost_of_carry_iff valid_volatility_iff

lemma valid_price_pos: "valid_price S \<Longrightarrow> 0 < S"
  by (simp add: valid_defs range_defs)

lemma valid_strike_pos: "valid_strike X \<Longrightarrow> 0 < X"
  by (simp add: valid_defs range_defs)

lemma valid_time_pos: "valid_time T \<Longrightarrow> 0 < T"
  by (simp add: valid_defs range_defs)

lemma valid_volatility_pos: "valid_volatility v \<Longrightarrow> 0 < v"
  by (simp add: valid_defs range_defs)

lemma valid_interest_rate_nonneg: "valid_interest_rate r \<Longrightarrow> 0 \<le> r"
  by (simp add: valid_defs range_defs)

lemma vst_pos: "0 < v \<Longrightarrow> 0 < T \<Longrightarrow> 0 < vst v T"
  by (simp add: vst_def)

lemma vst_sane: "valid_volatility v \<Longrightarrow> valid_time T \<Longrightarrow> is_sane (vst v T)"
proof -
  assume v: "valid_volatility v" and T: "valid_time T"
  then have "0 < v" "v \<le> 101" "0 < T" "T \<le> 20"
    by (simp_all add: valid_defs range_defs)
  then have "0 \<le> sqrt T" by simp
  have "sqrt T \<le> 5" using \<open>T \<le> 20\<close> by (intro real_le_lsqrt) simp_all
  with \<open>0 < v\<close> \<open>v \<le> 101\<close> \<open>0 \<le> sqrt T\<close> have "v * sqrt T \<le> 101 * 5"
    by (intro mult_mono) simp_all
  moreover have "0 \<le> v * sqrt T" using \<open>0 < v\<close> \<open>0 \<le> sqrt T\<close> by simp
  ultimately show ?thesis by (intro is_sane_small) (simp_all add: vst_def)
qed

subsection \<open>The cumulative normal approximation\<close>

text \<open>
  \<open>cnd x\<close> is \<open>1 - cnd_tail x\<close> for \<open>x \<ge> 0\<close> and \<open>cnd_tail (- x)\<close> for \<open>x < 0\<close>. The
  polynomial \<open>a12345k\<close> is positive on positive arguments and increasing, which makes
  \<open>cnd_tail\<close> positive and decreasing on the non-negative reals; at \<open>0\<close> it is the rational
  \<open>one_div_sqrt2pi * 1.253314136\<close>, a little below one half.
\<close>

lemma cnd_nonneg_eq: "0 \<le> x \<Longrightarrow> cnd x = 1 - cnd_tail x"
  by (simp add: cnd_def cnd_tail_def Let_def)

lemma cnd_neg_eq: "x < 0 \<Longrightarrow> cnd x = cnd_tail (- x)"
  by (simp add: cnd_def cnd_tail_def Let_def)

lemma quadratic_pos:
  fixes a b c x :: real
  assumes "0 < c" and "b * b < 4 * a * c"
  shows "0 < a + b * x + c * x * x"
proof -
  have "4 * c * (a + b * x + c * x * x) = (2 * c * x + b)\<^sup>2 + (4 * a * c - b * b)"
    by (simp add: power2_eq_square algebra_simps)
  moreover have "0 \<le> (2 * c * x + b)\<^sup>2" by simp
  ultimately have "0 < 4 * c * (a + b * x + c * x * x)"
    using assms(2) by linarith
  then show ?thesis using assms(1) by (simp add: zero_less_mult_iff)
qed

lemma a12345k_pos:
  assumes "0 < K"
  shows "0 < a12345k K"
proof -
  have split: "a12345k K
      = K * ((a1 + a2 * K + 1 * K * K) + K * K * ((a3 - 1) + a4 * K + a5 * K * K))"
    by (simp add: a12345k_def algebra_simps)
  have q1: "0 < a1 + a2 * K + 1 * K * K"
    by (rule quadratic_pos) (simp_all add: a1_def a2_def)
  have q2: "0 < (a3 - 1) + a4 * K + a5 * K * K"
    by (rule quadratic_pos) (simp_all add: a3_def a4_def a5_def)
  have "0 \<le> K * K * ((a3 - 1) + a4 * K + a5 * K * K)"
    using q2 by simp
  with q1 have "0 < (a1 + a2 * K + 1 * K * K) + K * K * ((a3 - 1) + a4 * K + a5 * K * K)"
    by linarith
  with assms show ?thesis unfolding split by simp
qed

lemma a12345k_deriv:
  "DERIV a12345k K :> a1 + 2 * a2 * K + 3 * a3 * K * K + 4 * a4 * K * K * K
                      + 5 * a5 * K * K * K * K"
  unfolding a12345k_def [abs_def]
  by (auto intro!: derivative_eq_intros simp: algebra_simps)

lemma a12345k_deriv_pos:
  "0 < a1 + 2 * a2 * K + 3 * a3 * K * K + 4 * a4 * K * K * K + 5 * a5 * K * K * K * K"
proof -
  have split: "a1 + 2 * a2 * K + 3 * a3 * K * K + 4 * a4 * K * K * K + 5 * a5 * K * K * K * K
      = (a1 + (2 * a2) * K + 1 * K * K)
        + K * K * ((3 * a3 - 1) + (4 * a4) * K + (5 * a5) * K * K)"
    by (simp add: algebra_simps)
  have q1: "0 < a1 + (2 * a2) * K + 1 * K * K"
    by (rule quadratic_pos) (simp_all add: a1_def a2_def)
  have q2: "0 < (3 * a3 - 1) + (4 * a4) * K + (5 * a5) * K * K"
    by (rule quadratic_pos) (simp_all add: a3_def a4_def a5_def)
  have "0 \<le> K * K * ((3 * a3 - 1) + (4 * a4) * K + (5 * a5) * K * K)"
    using q2 by simp
  with q1 show ?thesis unfolding split by linarith
qed

lemma a12345k_mono:
  assumes "K1 \<le> K2"
  shows "a12345k K1 \<le> a12345k K2"
proof (cases "K1 = K2")
  case True
  then show ?thesis by simp
next
  case False
  with assms have "K1 < K2" by simp
  then have "a12345k K1 < a12345k K2"
    by (rule DERIV_pos_imp_increasing) (blast intro: a12345k_deriv a12345k_deriv_pos)
  then show ?thesis by simp
qed

lemma a12345k_one: "a12345k 1 = 1.253314136"
  by (simp add: a12345k_def a1_def a2_def a3_def a4_def a5_def)

lemma cnd_tail_zero: "cnd_tail 0 = one_div_sqrt2pi * 1.253314136"
  by (simp add: cnd_tail_def pow2_def a12345k_one)
lemma cnd_tail_zero_bounds: "1 / 2 - 1 / 10 ^ 9 < cnd_tail 0" "cnd_tail 0 < 1 / 2"
  by (simp_all add: cnd_tail_zero one_div_sqrt2pi_def)

lemma cnd_tail_zero_gap: "cnd_tail 0 < 1 / 2 - 5 / 10 ^ 10"
  by (simp add: cnd_tail_zero one_div_sqrt2pi_def)

lemma cnd_tail_pos:
  assumes "0 \<le> L"
  shows "0 < cnd_tail L"
proof -
  have "0 < 1 / (1 + 0.2316419 * L)" using assms by simp
  then have "0 < a12345k (1 / (1 + 0.2316419 * L))" by (rule a12345k_pos)
  then show ?thesis
    by (simp add: cnd_tail_def one_div_sqrt2pi_def zero_less_mult_iff)
qed

lemma cnd_tail_antimono:
  assumes "0 \<le> x" and "x \<le> y"
  shows "cnd_tail y \<le> cnd_tail x"
proof -
  have "x * x \<le> y * y" using assms by (simp add: mult_mono)
  then have e: "exp (- pow2 y / 2) \<le> exp (- pow2 x / 2)"
    by (simp add: pow2_def)
  have "1 / (1 + 0.2316419 * y) \<le> 1 / (1 + 0.2316419 * x)"
    using assms by (simp add: frac_le)
  then have p: "a12345k (1 / (1 + 0.2316419 * y)) \<le> a12345k (1 / (1 + 0.2316419 * x))"
    by (rule a12345k_mono)
  have "0 < 1 / (1 + 0.2316419 * y)" using assms by simp
  then have p0: "0 \<le> a12345k (1 / (1 + 0.2316419 * y))"
    using a12345k_pos less_imp_le by blast
  have "exp (- pow2 y / 2) * a12345k (1 / (1 + 0.2316419 * y))
        \<le> exp (- pow2 x / 2) * a12345k (1 / (1 + 0.2316419 * x))"
    using e p p0 by (intro mult_mono) simp_all
  then have "one_div_sqrt2pi * (exp (- pow2 y / 2) * a12345k (1 / (1 + 0.2316419 * y)))
        \<le> one_div_sqrt2pi * (exp (- pow2 x / 2) * a12345k (1 / (1 + 0.2316419 * x)))"
    by (intro mult_left_mono) (simp_all add: one_div_sqrt2pi_def)
  then show ?thesis by (simp add: cnd_tail_def mult.assoc)
qed

lemma cnd_tail_le_zero: "0 \<le> L \<Longrightarrow> cnd_tail L \<le> cnd_tail 0"
  by (rule cnd_tail_antimono) simp_all

lemma cnd_bounds: "0 < cnd x \<and> cnd x < 1"
proof (cases "0 \<le> x")
  case True
  then have "0 < cnd_tail x" "cnd_tail x \<le> cnd_tail 0"
    by (simp_all add: cnd_tail_pos cnd_tail_le_zero)
  with cnd_tail_zero_bounds(2) True show ?thesis
    by (simp add: cnd_nonneg_eq)
next
  case False
  then have "0 < cnd_tail (- x)" "cnd_tail (- x) \<le> cnd_tail 0"
    by (simp_all add: cnd_tail_pos cnd_tail_le_zero)
  with cnd_tail_zero_bounds(2) False show ?thesis
    by (simp add: cnd_neg_eq)
qed

lemma cnd_neg_le_half: "x < 0 \<Longrightarrow> cnd x < 1 / 2"
  using cnd_tail_le_zero [of "- x"] cnd_tail_zero_bounds(2) by (simp add: cnd_neg_eq)



lemma cnd_reflect: "x \<noteq> 0 \<Longrightarrow> cnd x + cnd (- x) = 1"
  by (cases "0 < x") (simp_all add: cnd_nonneg_eq cnd_neg_eq)

lemma cnd_zero: "cnd 0 = 1 - cnd_tail 0"
  by (simp add: cnd_nonneg_eq)

lemma two_cnd_zero: "1 < 2 * cnd 0" "2 * cnd 0 < 1 + 2 / 10 ^ 9"
  using cnd_tail_zero_bounds by (simp_all add: cnd_zero)

lemma two_cnd_zero_excess: "1 + 1 / 10 ^ 9 < 2 * cnd 0"
  using cnd_tail_zero_gap by (simp add: cnd_zero)


subsection \<open>The European pricers\<close>

text \<open>On validated arguments with \<open>b \<le> r\<close> nothing overflows in \<open>gbs\<close>: it returns its
  formula.\<close>

lemma gbs_value_d:
  assumes "valid_inputs S X T r b v" and "b \<le> r"
  shows "gbs fCall S X T r b v =
     Inr (if fCall \<noteq> 0
          then S * exp ((b - r) * T) * cnd (d1 S X T b v) - X * exp (- r * T) * cnd (d2 S X T b v)
          else X * exp (- r * T) * cnd (- d2 S X T b v)
               - S * exp ((b - r) * T) * cnd (- d1 S X T b v))"
proof -
  let ?e = "exp ((b - r) * T)" and ?t = "exp (- r * T)"
  from assms(1) have pos: "0 < S" "0 < X" "0 < vst v T" "0 < T" "0 \<le> r"
    and hi: "S \<le> 1000000000000" "X \<le> 1000000000000"
    by (simp_all add: valid_inputs_def valid_price_pos valid_strike_pos vst_pos
        valid_time_pos valid_volatility_pos valid_interest_rate_nonneg)
       (simp_all add: valid_defs range_defs)
  have guard: "\<not> (X = 0 \<or> S / X \<le> 0 \<or> vst v T = 0)"
    using pos by (simp add: not_le)
  have e: "0 < ?e" "?e \<le> 1" using assms(2) pos by (simp_all add: mult_nonpos_nonneg)
  have t: "0 < ?t" "?t \<le> 1" using pos by simp_all
  have Se: "0 < S * ?e" "S * ?e \<le> 1000000000000"
    using pos hi e mult_mono [of S "1000000000000" ?e 1] by simp_all
  have Xt: "0 < X * ?t" "X * ?t \<le> 1000000000000"
    using pos hi t mult_mono [of X "1000000000000" ?t 1] by simp_all
  have prod: "0 < a * c \<and> a * c \<le> 1000000000000"
    if "0 < a" "a \<le> 1000000000000" "0 < c" "c < 1" for a c :: real
    using that mult_mono [of a "1000000000000" c 1] by simp
  have c1: "0 < S * ?e * cnd (d1 S X T b v) \<and> S * ?e * cnd (d1 S X T b v) \<le> 1000000000000"
    and c2: "0 < X * ?t * cnd (d2 S X T b v) \<and> X * ?t * cnd (d2 S X T b v) \<le> 1000000000000"
    and p1: "0 < S * ?e * cnd (- d1 S X T b v) \<and> S * ?e * cnd (- d1 S X T b v) \<le> 1000000000000"
    and p2: "0 < X * ?t * cnd (- d2 S X T b v) \<and> X * ?t * cnd (- d2 S X T b v) \<le> 1000000000000"
    using Se Xt cnd_bounds by (intro prod; simp)+
  have "is_sane ?e"
  proof (rule is_sane_small)
    show "- 1000000000000000000 \<le> ?e" using e by linarith
    show "?e \<le> 1000000000000000000" using e by linarith
  qed
  moreover have "is_sane (S * ?e)" using Se by (rule is_sane_pos)
  moreover have "is_sane (S * ?e * cnd (d1 S X T b v) - X * ?t * cnd (d2 S X T b v))"
    using c1 c2 by (intro is_sane_diff) simp_all
  moreover have "is_sane (X * ?t * cnd (- d2 S X T b v) - S * ?e * cnd (- d1 S X T b v))"
    using p1 p2 by (intro is_sane_diff) simp_all
  ultimately have sane: "is_sane ?e" "is_sane (S * ?e)"
    "is_sane (S * ?e * cnd (d1 S X T b v) - X * ?t * cnd (d2 S X T b v))"
    "is_sane (X * ?t * cnd (- d2 S X T b v) - S * ?e * cnd (- d1 S X T b v))"
    by blast+
  have vs: "is_sane (vst v T)" using assms(1) by (simp add: valid_inputs_def vst_sane)
  show ?thesis
    unfolding gbs_def using assms(1) guard sane vs
    by (simp add: valid_inputs_def Let_def d1_def d2_def)
qed

subsection \<open>The American call without early exercise\<close>

text \<open>
  C1. With all six arguments inside the validated ranges and \<open>b \<ge> r\<close>,
  \<open>BSAmericanCallApprox S X T r b v\<close> returns exactly what \<open>gbs\<close> returns for a call on the
  same arguments (the same price, or the same terminated process): the branch delegates
  and computes nothing else.
\<close>

theorem american_call_delegates_to_gbs:
  assumes "valid_inputs S X T r b v" and "b \<ge> r"
  shows "BSAmericanCallApprox S X T r b v = returned (gbs Call S X T r b v)"
  using assms by (simp add: BSAmericanCallApprox_def valid_inputs_def)

theorem american_call_delegates_to_gbs_witness:
  "valid_inputs 50 45 1 0.08 0.08 0.25 \<and> (0.08::real) \<ge> 0.08
   \<and> BSAmericanCallApprox 50 45 1 0.08 0.08 0.25 = returned (gbs Call 50 45 1 0.08 0.08 0.25)"
proof -
  have v: "valid_inputs 50 45 1 0.08 0.08 0.25"
    by (simp add: valid_inputs_def valid_defs range_defs)
  from american_call_delegates_to_gbs [OF v] v show ?thesis by simp
qed

subsection \<open>The put-call transformation\<close>



subsection \<open>Safe arguments\<close>

text \<open>
  C10. For \<open>v \<ge> VOLATILITY_MIN\<close> and \<open>T \<ge> TIME_MIN\<close> the intermediate
  \<open>vst = v * sqrt T\<close> of \<open>blackscholes\<close>, \<open>gbs\<close> and \<open>phi\<close> is strictly positive, so the
  quotients by it have a non-zero denominator.
\<close>

theorem vst_positive_on_domain:
  assumes "v \<ge> VOLATILITY_MIN" and "T \<ge> TIME_MIN"
  shows "0 < vst v T \<and> vst v T \<noteq> 0"
proof -
  from assms have "0 < v" "0 < T" by (simp_all add: range_defs)
  then show ?thesis using vst_pos by fastforce
qed

theorem vst_positive_on_domain_witness:
  "(0.2::real) \<ge> VOLATILITY_MIN \<and> (1::real) \<ge> TIME_MIN \<and> 0 < vst 0.2 1"
proof -
  have h: "(0.2::real) \<ge> VOLATILITY_MIN" "(1::real) \<ge> TIME_MIN"
    by (simp_all add: range_defs)
  from vst_positive_on_domain [OF h] h show ?thesis by simp
qed

subsection \<open>The early-exercise branch in exact arithmetic\<close>

lemma Beta_gt_one:
  assumes v: "0 < v" and br: "b < r"
  shows "1 < Beta r b v"
proof -
  define w where "w = v * v"
  define u where "u = b / w - 1 / 2"
  have w: "0 < w" using v by (simp add: w_def)
  have lt: "(1 + u)\<^sup>2 < u\<^sup>2 + 2 * r / w"
  proof -
    have "(1 + u)\<^sup>2 = u\<^sup>2 + 2 * b / w"
      by (simp add: u_def power2_eq_square algebra_simps)
    moreover have "2 * b / w < 2 * r / w"
      using w br by (simp add: divide_strict_right_mono)
    ultimately show ?thesis by simp
  qed
  have "1 + u < sqrt (u\<^sup>2 + 2 * r / w)"
  proof (cases "0 \<le> 1 + u")
    case True
    then have "1 + u = sqrt ((1 + u)\<^sup>2)" by simp
    also have "\<dots> < sqrt (u\<^sup>2 + 2 * r / w)"
      using lt by (simp only: real_sqrt_less_iff)
    finally show ?thesis .
  next
    case False
    have "0 \<le> u\<^sup>2 + 2 * r / w"
      using lt zero_le_power2 [of "1 + u"] by linarith
    then have "0 \<le> sqrt (u\<^sup>2 + 2 * r / w)" by simp
    with False show ?thesis by linarith
  qed
  moreover have "Beta r b v = - u + sqrt (u\<^sup>2 + 2 * r / w)"
    by (simp add: Beta_def u_def w_def pow2_def power2_eq_square)
  ultimately show ?thesis by linarith
qed

lemma BInfinity_gt_strike:
  assumes "0 < v" and "b < r" and "0 < X"
  shows "X < BInfinity X r b v"
proof -
  have B: "1 < Beta r b v" using assms by (simp add: Beta_gt_one)
  then have "1 < Beta r b v / (Beta r b v - 1)" by simp
  then have "1 * X < Beta r b v / (Beta r b v - 1) * X"
    using assms(3) by (simp only: mult_strict_right_mono)
  then show ?thesis by (simp add: BInfinity_def)
qed

lemma blackscholes_value:
  assumes "valid_inputs S X T r r v" and "v \<le> 100"
  shows "blackscholes fCall S X T r v =
     Inr (if fCall \<noteq> 0
          then S * cnd (d1 S X T r v) - X * exp (- r * T) * cnd (d2 S X T r v)
          else X * exp (- r * T) * cnd (- d2 S X T r v) - S * cnd (- d1 S X T r v))"
proof -
  from assms have pos: "0 < S" "0 < X" "0 < vst v T" "0 < v" "0 \<le> r"
    by (simp_all add: valid_inputs_def valid_price_pos valid_strike_pos vst_pos
        valid_time_pos valid_volatility_pos valid_interest_rate_nonneg)
  then have "\<not> (X = 0 \<or> S / X \<le> 0 \<or> vst v T = 0)"
    by (simp add: not_le)
  with assms pos show ?thesis
    unfolding blackscholes_def valid_inputs_def by (simp add: Let_def d1_def d2_def)
qed

lemma blackscholes_rejects_volatility_above_100:
  assumes "valid_inputs S X T r r v" and "100 < v"
  shows "blackscholes fCall S X T r v = Inl AssertExtra"
  using assms valid_interest_rate_nonneg [of r]
  by (simp add: blackscholes_def valid_inputs_def)

text \<open>
  The volatility range of the validation macros ends at \<open>100.99999\<close>, the further
  assertion of \<open>blackscholes\<close> at \<open>100\<close>. At \<open>v = 100.5\<close> (with \<open>S = X = 100\<close>, \<open>T = 1\<close>,
  \<open>r = 0.05\<close>) every argument is inside the validated ranges, \<open>gbs\<close> returns a price and
  \<open>blackscholes\<close> fails that assertion.
\<close>

theorem gbs_differs_from_blackscholes_above_100:
  "valid_inputs 100 100 1 0.05 0.05 100.5
   \<and> blackscholes Call 100 100 1 0.05 100.5 = Inl AssertExtra
   \<and> \<not> isl (gbs Call 100 100 1 0.05 0.05 100.5)
   \<and> gbs Call 100 100 1 0.05 0.05 100.5 \<noteq> blackscholes Call 100 100 1 0.05 100.5"
proof -
  have v: "valid_inputs 100 100 1 0.05 0.05 100.5"
    by (simp add: valid_inputs_def valid_defs range_defs)
  have b: "blackscholes Call 100 100 1 0.05 100.5 = Inl AssertExtra"
    using v by (simp add: blackscholes_def valid_inputs_def)
  show ?thesis using v b gbs_value_d [OF v, of Call] by simp
qed

text \<open>
  C4 (as amended). For \<open>S\<close>, \<open>X\<close>, \<open>T\<close>, \<open>r\<close>, \<open>v\<close> inside the validated ranges and
  \<open>v \<le> 100\<close>, \<open>gbs\<close> with cost of carry \<open>r\<close> returns the price that \<open>blackscholes\<close>
  returns, for a call and for a put.
\<close>

theorem gbs_reduces_to_blackscholes:
  assumes "valid_inputs S X T r r v" and "v \<le> 100"
  shows "gbs fCall S X T r r v = blackscholes fCall S X T r v
         \<and> \<not> isl (blackscholes fCall S X T r v)"
  using gbs_value_d [OF assms(1), of fCall] blackscholes_value [OF assms, of fCall]
  by simp

theorem gbs_reduces_to_blackscholes_witness:
  "valid_inputs 100 100 1 0.05 0.05 0.2 \<and> (0.2::real) \<le> 100
   \<and> gbs Call 100 100 1 0.05 0.05 0.2 = blackscholes Call 100 100 1 0.05 0.2
   \<and> gbs Put 100 100 1 0.05 0.05 0.2 = blackscholes Put 100 100 1 0.05 0.2"
proof -
  have v: "valid_inputs 100 100 1 0.05 0.05 0.2" "(0.2::real) \<le> 100"
    by (simp_all add: valid_inputs_def valid_defs range_defs)
  from gbs_reduces_to_blackscholes [OF v, of Call] gbs_reduces_to_blackscholes [OF v, of Put] v
  show ?thesis by simp
qed

lemma d1_d2_not_both_zero:
  "0 < vst v T \<Longrightarrow> \<not> (d1 S X T b v = 0 \<and> d2 S X T b v = 0)"
  by (auto simp: d2_def)

text \<open>
  Put-call parity is not exact. At \<open>S = X = 100\<close>, \<open>T = 1\<close>, \<open>r = 1/8\<close>, \<open>v = 1/2\<close> the
  intermediate \<open>d2\<close> is \<open>0\<close>, the two \<open>cnd\<close> values of the strike term add up to
  \<open>2 * cnd 0\<close>, and call minus put misses \<open>S - X * exp (- r * T)\<close> by more than
  \<open>10\<^sup>-\<^sup>9\<close> of its size.
\<close>

theorem parity_fails_when_d2_is_zero:
  "valid_inputs 100 100 1 (1 / 8) (1 / 8) (1 / 2) \<and> (1 / 2 :: real) \<le> 100
   \<and> \<not> isl (blackscholes Call 100 100 1 (1 / 8) (1 / 2))
   \<and> \<not> isl (blackscholes Put 100 100 1 (1 / 8) (1 / 2))
   \<and> projr (blackscholes Call 100 100 1 (1 / 8) (1 / 2))
       - projr (blackscholes Put 100 100 1 (1 / 8) (1 / 2))
       \<noteq> 100 - 100 * exp (- (1 / 8) * 1)
   \<and> \<bar>projr (blackscholes Call 100 100 1 (1 / 8) (1 / 2))
       - projr (blackscholes Put 100 100 1 (1 / 8) (1 / 2))
       - (100 - 100 * exp (- (1 / 8) * 1))\<bar>
       > 1 / 10 ^ 9 * \<bar>100 - 100 * exp (- (1 / 8) * 1)\<bar>"
proof -
  define E :: real where "E = exp (- (1 / 8) * 1)"
  have v: "valid_inputs 100 100 1 (1 / 8) (1 / 8) (1 / 2)" "(1 / 2 :: real) \<le> 100"
    by (simp_all add: valid_inputs_def valid_defs range_defs)
  have d1: "d1 100 100 1 (1 / 8) (1 / 2) = 1 / 2"
    by (simp add: d1_def vst_def pow2_def)
  have d2: "d2 100 100 1 (1 / 8) (1 / 2) = 0"
    by (simp add: d2_def d1 vst_def)
  have r: "cnd (1 / 2) + cnd (- (1 / 2)) = 1" by (rule cnd_reflect) simp
  have "projr (blackscholes Call 100 100 1 (1 / 8) (1 / 2))
        - projr (blackscholes Put 100 100 1 (1 / 8) (1 / 2))
      = 100 * (cnd (1 / 2) + cnd (- (1 / 2))) - 100 * E * (2 * cnd 0)"
    unfolding blackscholes_value [OF v] d1 d2 E_def by (simp add: algebra_simps)
  also have "\<dots> = 100 - 100 * E * (2 * cnd 0)" by (simp only: r mult_1_right)
  finally have diff: "projr (blackscholes Call 100 100 1 (1 / 8) (1 / 2))
        - projr (blackscholes Put 100 100 1 (1 / 8) (1 / 2))
        = 100 - 100 * E * (2 * cnd 0)" .
  have "1 + (- (1 / 8) * 1) \<le> E" unfolding E_def by (rule exp_ge_add_one_self)
  then have E1: "7 / 8 \<le> E" by simp
  have E2: "E \<le> 1" by (simp add: E_def)
  have "E * (1 + 1 / 10 ^ 9) < E * (2 * cnd 0)"
    using E1 two_cnd_zero_excess by (intro mult_strict_left_mono) simp_all
  then have gap: "E / 10 ^ 9 < E * (2 * cnd 0) - E" by (simp add: algebra_simps)
  have ne: "100 - 100 * E * (2 * cnd 0) \<noteq> 100 - 100 * E"
    using gap E1 by auto
  have "\<bar>100 - 100 * E * (2 * cnd 0) - (100 - 100 * E)\<bar> = 100 * (E * (2 * cnd 0) - E)"
    using gap E1 by (simp add: algebra_simps)
  moreover have "1 / 10 ^ 9 * \<bar>100 - 100 * E\<bar> = 100 * ((1 - E) / 10 ^ 9)"
    using E2 by (simp add: algebra_simps)
  moreover have "(1 - E) / 10 ^ 9 < E * (2 * cnd 0) - E"
  proof -
    have "(1 - E) / 10 ^ 9 \<le> E / 10 ^ 9"
      using E1 by (intro divide_right_mono) simp_all
    with gap show ?thesis by linarith
  qed
  ultimately have rel: "1 / 10 ^ 9 * \<bar>100 - 100 * E\<bar>
      < \<bar>100 - 100 * E * (2 * cnd 0) - (100 - 100 * E)\<bar>"
    by simp
  show ?thesis
    using v blackscholes_value [OF v, of Call] blackscholes_value [OF v, of Put] ne rel
    unfolding diff E_def [symmetric] by simp
qed

text \<open>
  C3 (as amended). For \<open>S\<close>, \<open>X\<close>, \<open>T\<close>, \<open>r\<close>, \<open>v\<close> inside the validated ranges and
  \<open>v \<le> 100\<close>, both prices exist and call minus put is exactly \<open>S - X * exp (- r * T)\<close>
  whenever neither \<open>d1\<close> nor \<open>d2\<close> is zero. At \<open>d1 = 0\<close> it is
  \<open>S * (2 * cnd 0) - X * exp (- r * T)\<close>, at \<open>d2 = 0\<close> it is
  \<open>S - X * exp (- r * T) * (2 * cnd 0)\<close>; in every case it is within
  \<open>2 * 10\<^sup>-\<^sup>9 * max S X\<close> of \<open>S - X * exp (- r * T)\<close>.
\<close>

theorem put_call_parity:
  assumes "valid_inputs S X T r r v" and "v \<le> 100"
  shows "\<not> isl (blackscholes Call S X T r v) \<and> \<not> isl (blackscholes Put S X T r v)
    \<and> (d1 S X T r v \<noteq> 0 \<and> d2 S X T r v \<noteq> 0 \<longrightarrow>
         projr (blackscholes Call S X T r v) - projr (blackscholes Put S X T r v)
           = S - X * exp (- r * T))
    \<and> (d1 S X T r v = 0 \<longrightarrow>
         projr (blackscholes Call S X T r v) - projr (blackscholes Put S X T r v)
           = S * (2 * cnd 0) - X * exp (- r * T))
    \<and> (d2 S X T r v = 0 \<longrightarrow>
         projr (blackscholes Call S X T r v) - projr (blackscholes Put S X T r v)
           = S - X * exp (- r * T) * (2 * cnd 0))
    \<and> \<bar>projr (blackscholes Call S X T r v) - projr (blackscholes Put S X T r v)
         - (S - X * exp (- r * T))\<bar> \<le> 2 / 10 ^ 9 * max S X"
proof -
  let ?c = "projr (blackscholes Call S X T r v)"
  let ?p = "projr (blackscholes Put S X T r v)"
  let ?d1 = "d1 S X T r v" and ?d2 = "d2 S X T r v"
  let ?E = "X * exp (- r * T)"
  from assms have pos: "0 < S" "0 < X" "0 < vst v T" "0 \<le> r" "0 < T"
    by (simp_all add: valid_inputs_def valid_price_pos valid_strike_pos vst_pos
        valid_time_pos valid_volatility_pos valid_interest_rate_nonneg)
  have diff: "?c - ?p = S * (cnd ?d1 + cnd (- ?d1)) - ?E * (cnd ?d2 + cnd (- ?d2))"
    using blackscholes_value [OF assms, of Call] blackscholes_value [OF assms, of Put]
    by (simp add: algebra_simps)
  have E: "0 < ?E" "?E \<le> X"
    using pos by (simp_all add: mult_le_cancel_left2)
  have A: "?d1 \<noteq> 0 \<Longrightarrow> ?d2 \<noteq> 0 \<Longrightarrow> ?c - ?p = S - ?E"
    by (simp add: diff cnd_reflect)
  have d21: "?d1 = 0 \<Longrightarrow> ?d2 \<noteq> 0" and d12: "?d2 = 0 \<Longrightarrow> ?d1 \<noteq> 0"
    using pos(3) by (auto simp: d2_def)
  have B: "?c - ?p = S * (2 * cnd 0) - ?E" if "?d1 = 0"
    using that d21 [OF that] by (simp add: diff cnd_reflect)
  have C: "?c - ?p = S - ?E * (2 * cnd 0)" if "?d2 = 0"
    using that d12 [OF that] by (simp add: diff cnd_reflect)
  have D: "\<bar>?c - ?p - (S - ?E)\<bar> \<le> 2 / 10 ^ 9 * max S X"
  proof -
    consider "?d1 \<noteq> 0" "?d2 \<noteq> 0" | "?d1 = 0" | "?d2 = 0" by blast
    then show ?thesis
    proof cases
      case 1
      then show ?thesis using A pos by simp
    next
      case 2
      have "?c - ?p - (S - ?E) = S * (2 * cnd 0 - 1)"
        using B [OF 2] by (simp add: algebra_simps)
      moreover have "0 \<le> S * (2 * cnd 0 - 1)" using pos two_cnd_zero by simp
      moreover have "S * (2 * cnd 0 - 1) \<le> S * (2 / 10 ^ 9)"
        using pos two_cnd_zero by (intro mult_left_mono) simp_all
      moreover have "S * (2 / 10 ^ 9) \<le> max S X * (2 / 10 ^ 9)"
        by (intro mult_right_mono) simp_all
      ultimately show ?thesis by (simp add: mult.commute)
    next
      case 3
      have "?c - ?p - (S - ?E) = - (?E * (2 * cnd 0 - 1))"
        using C [OF 3] by (simp add: algebra_simps)
      moreover have "0 \<le> ?E * (2 * cnd 0 - 1)" using E two_cnd_zero by simp
      moreover have "?E * (2 * cnd 0 - 1) \<le> X * (2 / 10 ^ 9)"
        using E two_cnd_zero by (intro mult_mono) simp_all
      moreover have "X * (2 / 10 ^ 9) \<le> max S X * (2 / 10 ^ 9)"
        by (intro mult_right_mono) simp_all
      ultimately show ?thesis by (simp add: mult.commute)
    qed
  qed
  show ?thesis
    using A B C D blackscholes_value [OF assms, of Call] blackscholes_value [OF assms, of Put]
    by simp
qed

theorem put_call_parity_witness:
  "valid_inputs 100 100 1 (1 / 20) (1 / 20) (1 / 5) \<and> (1 / 5 :: real) \<le> 100
   \<and> d1 100 100 1 (1 / 20) (1 / 5) \<noteq> 0 \<and> d2 100 100 1 (1 / 20) (1 / 5) \<noteq> 0
   \<and> projr (blackscholes Call 100 100 1 (1 / 20) (1 / 5))
       - projr (blackscholes Put 100 100 1 (1 / 20) (1 / 5))
       = 100 - 100 * exp (- (1 / 20) * 1)"
proof -
  have v: "valid_inputs 100 100 1 (1 / 20) (1 / 20) (1 / 5)" "(1 / 5 :: real) \<le> 100"
    by (simp_all add: valid_inputs_def valid_defs range_defs)
  have d: "d1 100 100 1 (1 / 20) (1 / 5) \<noteq> 0" "d2 100 100 1 (1 / 20) (1 / 5) \<noteq> 0"
    by (simp_all add: d1_def d2_def vst_def pow2_def)
  from put_call_parity [OF v] v d show ?thesis by simp
qed

lemma B0_eq_strike:
  assumes "b \<le> 0" and "0 \<le> r" and "b < r" and "0 < X"
  shows "B0 X r b = X"
proof -
  have "r / (r - b) \<le> 1" using assms by simp
  then have "r / (r - b) * X \<le> 1 * X"
    using assms(4) by (intro mult_right_mono) simp_all
  then show ?thesis by (simp add: B0_def)
qed

lemma trigger_upper:
  assumes "b \<le> 0" and "0 \<le> r" and "b < r" and "0 < X" and "0 < v"
  shows "trigger X T r b v \<le> X * (1 + (b * T + 2 * v * sqrt T))"
proof -
  define D where "D = BInfinity X r b v - X"
  define c where "c = b * T + 2 * v * sqrt T"
  have D: "0 < D" using assms BInfinity_gt_strike [of v b r X] by (simp add: D_def)
  have B0: "B0 X r b = X" using assms by (simp add: B0_eq_strike)
  have ht: "ht X T r b v = - c * X / D"
    by (simp add: ht_def B0 D_def c_def)
  have "1 + (- c * X / D) \<le> exp (- c * X / D)" by (rule exp_ge_add_one_self)
  then have "1 - exp (- c * X / D) \<le> c * X / D" by simp
  then have "D * (1 - exp (- c * X / D)) \<le> D * (c * X / D)"
    using D by (intro mult_left_mono) simp_all
  also have "\<dots> = c * X" using D by simp
  finally have "X + D * (1 - exp (- c * X / D)) \<le> X + c * X" by simp
  moreover have "trigger X T r b v = X + D * (1 - exp (- c * X / D))"
    by (simp add: trigger_def B0 ht D_def)
  ultimately show ?thesis by (simp add: c_def algebra_simps)
qed

subsection \<open>The American call against the European call\<close>

text \<open>
  With a cost of carry \<open>b \<le> 0\<close> the bound \<open>B0\<close> is the strike, and the trigger price is at
  most \<open>X * (1 + b * T + 2 * v * sqrt T)\<close>: for \<open>b * T + 2 * v * sqrt T < 0\<close> it lies below
  the strike, and a price between the two is exercised at \<open>S - X < 0\<close>, provided no
  intermediate overflows.
\<close>

lemma american_call_exercise:
  assumes "valid_price S" and "valid_strike X" and "valid_time T"
    and "valid_interest_rate r" and "valid_volatility v"
    and "b \<le> 0" and "b < r"
    and sane: "is_sane (Beta r b v)" "is_sane (Beta r b v / (Beta r b v - 1))"
      "is_sane (BInfinity X r b v)" "is_sane (- (b * T + 2 * v * sqrt T) * B0 X r b)"
      "is_sane (ht X T r b v)" "is_sane (exp (ht X T r b v))" "is_sane (trigger X T r b v)"
    and "trigger X T r b v \<le> S"
  shows "BSAmericanCallApprox S X T r b v = Inr (Finite (S - X))"
proof -
  have pos: "0 < v" "0 < X" "0 \<le> r"
    using assms by (simp_all add: valid_volatility_pos valid_strike_pos valid_interest_rate_nonneg)
  have vv: "v * v \<noteq> 0" "0 < v * v" using pos by simp_all
  have "v \<le> 101" using assms(5) by (simp add: valid_defs range_defs)
  then have "v * v \<le> 101 * 101" using pos by (intro mult_mono) simp_all
  then have vvs: "is_sane (v * v)" using vv by (intro is_sane_small) simp_all
  have "0 \<le> 2 * r / (v * v)" using pos by simp
  then have rad: "\<not> pow2 (b / (v * v) - 0.5) + 2.0 * r / (v * v) < 0"
    by (simp add: pow2_def not_less add_nonneg_nonneg)
  have beta: "Beta r b v - 1.0 \<noteq> 0"
    using Beta_gt_one [of v b r] pos assms(7) by simp
  have rb: "r - b \<noteq> 0" using assms(7) by simp
  have B0: "B0 X r b = X" using assms pos by (simp add: B0_eq_strike)
  have gap: "BInfinity X r b v - B0 X r b \<noteq> 0"
    using BInfinity_gt_strike [of v b r X] pos assms(7) B0 by simp
  have B0s: "is_sane (B0 X r b)"
    using assms(2) by (simp add: B0 valid_strike_def)
  show ?thesis
    unfolding BSAmericanCallApprox_def
    using assms(1-5,7) \<open>trigger X T r b v \<le> S\<close> vv(1) vvs rad beta rb gap B0s sane
    by (simp add: Let_def)
qed

lemma d1_neg:
  assumes "ln (S / X) + (b + pow2 v / 2) * T < 0" and "0 < vst v T"
  shows "d1 S X T b v < 0"
  using assms by (simp add: d1_def divide_neg_pos)

lemma exp_31: "exp (31::real) \<le> 3 ^ 31"
proof -
  have "exp (of_nat 31 * (1::real)) = exp 1 ^ 31" by (rule exp_of_nat_mult)
  moreover have "exp (1::real) ^ 31 \<le> 3 ^ 31"
    by (intro power_mono exp_le) simp
  ultimately show ?thesis by simp
qed

text \<open>The locals of the early-exercise branch at \<open>X = 100\<close>, \<open>T = 1\<close>, \<open>r = 1/20\<close>,
  \<open>b = - 1\<close>, \<open>v = 1/5\<close>.\<close>

lemma failing_input_locals:
  defines "B \<equiv> Beta (1 / 20) (- 1) (1 / 5)"
  shows "51 \<le> B" "B \<le> 52"
    and "1 < B / (B - 1)" "B / (B - 1) \<le> 2"
    and "100 < BInfinity 100 (1 / 20) (- 1) (1 / 5)" "BInfinity 100 (1 / 20) (- 1) (1 / 5) \<le> 200"
    and "B0 100 (1 / 20) (- 1) = 100"
    and "0 < ht 100 1 (1 / 20) (- 1) (1 / 5)" "ht 100 1 (1 / 20) (- 1) (1 / 5) \<le> 31"
proof -
  have Beq: "B = 51 / 2 + sqrt (2611 / 4)"
    by (simp add: B_def Beta_def pow2_def)
  have "51 / 2 \<le> sqrt (2611 / 4)" by (rule real_le_rsqrt) (simp add: power2_eq_square)
  moreover have "sqrt (2611 / 4) \<le> 53 / 2" by (rule real_le_lsqrt) (simp_all add: power2_eq_square)
  ultimately show B: "51 \<le> B" "B \<le> 52" by (simp_all add: Beq)
  then show q: "1 < B / (B - 1)" "B / (B - 1) \<le> 2" by (simp_all add: field_simps)
  have BI: "BInfinity 100 (1 / 20) (- 1) (1 / 5) = B / (B - 1) * 100"
    by (simp add: BInfinity_def B_def)
  define q where "q = B / (B - 1)"
  have "1 < q" "q \<le> 2" using q by (simp_all add: q_def)
  then have "100 < q * 100" "q * 100 \<le> 200" by simp_all
  then show bi: "100 < BInfinity 100 (1 / 20) (- 1) (1 / 5)"
    "BInfinity 100 (1 / 20) (- 1) (1 / 5) \<le> 200"
    by (simp_all only: BI q_def)
  show b0: "B0 100 (1 / 20) (- 1) = 100" by (simp add: B0_def)
  have gap: "BInfinity 100 (1 / 20) (- 1) (1 / 5) - 100 = 100 / (B - 1)"
    using B by (simp add: BI field_simps)
  have h: "ht 100 1 (1 / 20) (- 1) (1 / 5) = 3 / 5 * (B - 1)"
    using B by (simp add: ht_def b0 gap)
  show "0 < ht 100 1 (1 / 20) (- 1) (1 / 5)" "ht 100 1 (1 / 20) (- 1) (1 / 5) \<le> 31"
    using B by (simp_all add: h)
qed

text \<open>
  C6 (evaluation at a failing input). At \<open>S = 50\<close>, \<open>X = 100\<close>, \<open>T = 1\<close>, \<open>r = 1/20\<close>,
  \<open>b = - 1\<close>, \<open>v = 1/5\<close>, all inside the validated ranges and with \<open>b < r\<close>,
  \<open>BSAmericanApprox\<close> prices the call at \<open>- 50\<close>, while \<open>gbs\<close> prices the European call
  above \<open>- 50\<close>: here the American approximation is below the European price.
\<close>

theorem american_call_below_european:
  "valid_inputs 50 100 1 (1 / 20) (- 1) (1 / 5) \<and> (- 1 :: real) < 1 / 20
   \<and> BSAmericanApprox Call 50 100 1 (1 / 20) (- 1) (1 / 5) = Inr (- 50)
   \<and> \<not> isl (gbs Call 50 100 1 (1 / 20) (- 1) (1 / 5))
   \<and> - 50 < projr (gbs Call 50 100 1 (1 / 20) (- 1) (1 / 5))"
proof -
  let ?B = "Beta (1 / 20) (- 1) (1 / 5)"
  let ?BI = "BInfinity 100 (1 / 20) (- 1) (1 / 5)"
  let ?h = "ht 100 1 (1 / 20) (- 1) (1 / 5)"
  let ?I = "trigger 100 1 (1 / 20) (- 1) (1 / 5)"
  note L = failing_input_locals
  have v: "valid_inputs 50 100 1 (1 / 20) (- 1) (1 / 5)"
    by (simp add: valid_inputs_def valid_defs range_defs)
  then have vs: "valid_price 50" "valid_strike 100" "valid_time 1"
    "valid_interest_rate (1 / 20)" "valid_volatility (1 / 5)"
    by (simp_all add: valid_inputs_def)
  have "?I \<le> 100 * (1 + (- 1 * 1 + 2 * (1 / 5) * sqrt 1))"
    by (rule trigger_upper) simp_all
  then have t: "?I \<le> 50" by simp
  have eh: "1 \<le> exp ?h" "exp ?h \<le> 3 ^ 31"
  proof -
    show "1 \<le> exp ?h" using L(8) by simp
    have "exp ?h \<le> exp 31" using L(9) by simp
    then show "exp ?h \<le> 3 ^ 31" using exp_31 by linarith
  qed
  have tl: "- (100 * 3 ^ 31) \<le> ?I"
  proof -
    have "(?BI - 100) * (exp ?h - 1) \<le> 100 * (3 ^ 31 - 1)"
      using L(5,6) eh by (intro mult_mono) simp_all
    moreover have "?I = 100 - (?BI - 100) * (exp ?h - 1)"
      by (simp add: trigger_def L(7) algebra_simps)
    ultimately show ?thesis by simp
  qed
  have s1: "is_sane ?B" using L(1,2) by (intro is_sane_small) simp_all
  have s2: "is_sane (?B / (?B - 1))" using L(3,4) by (intro is_sane_small) simp_all
  have s3: "is_sane ?BI" using L(5,6) by (intro is_sane_small) simp_all
  have s4: "is_sane (- (- 1 * 1 + 2 * (1 / 5) * sqrt 1) * B0 100 (1 / 20) (- 1))"
    by (intro is_sane_small) (simp_all add: L(7))
  have s5: "is_sane ?h" using L(8,9) by (intro is_sane_small) simp_all
  have s6: "is_sane (exp ?h)"
  proof (rule is_sane_small)
    show "- 1000000000000000000 \<le> exp ?h" using exp_ge_zero [of ?h] by linarith
    show "exp ?h \<le> 1000000000000000000" using eh(2) by simp
  qed
  have s7: "is_sane ?I" using t tl by (intro is_sane_small) simp_all
  have call: "BSAmericanCallApprox 50 100 1 (1 / 20) (- 1) (1 / 5) = Inr (Finite (50 - 100))"
    using vs _ _ s1 s2 s3 s4 s5 s6 s7 t by (rule american_call_exercise) simp_all
  have "is_sane (- 50)" by (intro is_sane_small) simp_all
  then have am: "BSAmericanApprox Call 50 100 1 (1 / 20) (- 1) (1 / 5) = Inr (- 50)"
    using vs by (simp add: BSAmericanApprox_def call)
  let ?d1 = "d1 50 100 1 (- 1) (1 / 5)" and ?d2 = "d2 50 100 1 (- 1) (1 / 5)"
  have l: "ln (50 / 100 :: real) < 0" by (intro ln_less_zero) simp_all
  have "(- 1 + pow2 (1 / 5) / 2) * 1 < (0::real)" by (simp add: pow2_def)
  with l have "ln (50 / 100 :: real) + (- 1 + pow2 (1 / 5) / 2) * 1 < 0" by linarith
  moreover have "0 < vst (1 / 5) 1" by (simp add: vst_def)
  ultimately have d1: "?d1 < 0" by (rule d1_neg)
  then have d2: "?d2 < 0" by (simp add: d2_def vst_def)
  have e: "gbs Call 50 100 1 (1 / 20) (- 1) (1 / 5)
      = Inr (50 * exp ((- 1 - 1 / 20) * 1) * cnd ?d1 - 100 * exp (- (1 / 20) * 1) * cnd ?d2)"
    using gbs_value_d [OF v, of Call] by simp
  have first: "0 < 50 * exp ((- 1 - 1 / 20) * 1) * cnd ?d1"
    using cnd_bounds [of ?d1] by simp
  have "exp (- (1 / 20) * 1) * cnd ?d2 \<le> 1 * (1 / 2)"
    using cnd_neg_le_half [OF d2] cnd_bounds [of ?d2] by (intro mult_mono) simp_all
  then have second: "100 * exp (- (1 / 20) * 1) * cnd ?d2 \<le> 50" by simp
  from first second have "- 50 < 50 * exp ((- 1 - 1 / 20) * 1) * cnd ?d1
      - 100 * exp (- (1 / 20) * 1) * cnd ?d2"
    by linarith
  with v am e show ?thesis by simp
qed

theorem american_call_below_european_witness:
  "valid_inputs 50 100 1 (1 / 20) (- 1) (1 / 5)
   \<and> BSAmericanApprox Call 50 100 1 (1 / 20) (- 1) (1 / 5) = Inr (- 50)
   \<and> - 50 < projr (gbs Call 50 100 1 (1 / 20) (- 1) (1 / 5))"
  using american_call_below_european by simp

subsection \<open>The put through the call\<close>

lemma fin_sane: "fin x = Finite p \<Longrightarrow> is_sane p"
  by (auto simp: fin_def is_sane_def abs_le_iff split: if_splits)

lemma dadd_sane: "dadd a c = Finite p \<Longrightarrow> is_sane p"
  by (cases a; cases c) (auto dest: fin_sane)

lemma dsub_sane: "dsub a c = Finite p \<Longrightarrow> is_sane p"
  unfolding dsub_def by (rule dadd_sane)

lemma dadd_nonfinite_left: "\<not> is_finite a \<Longrightarrow> \<not> is_finite (dadd a c)"
  by (cases a; cases c) simp_all

lemma dsub_nonfinite_left: "\<not> is_finite a \<Longrightarrow> \<not> is_finite (dsub a c)"
  unfolding dsub_def by (rule dadd_nonfinite_left)

lemma gbs_sane: "gbs fCall S X T r b v = Inr p \<Longrightarrow> is_sane p"
  by (auto simp: gbs_def Let_def split: if_splits)

lemma price_minus_strike_sane:
  assumes "valid_price S" and "valid_strike X"
  shows "is_sane (S - X)"
  using assms by (intro is_sane_small) (simp_all add: valid_defs range_defs)

text \<open>Whatever finite value \<open>BSAmericanCallApprox\<close> returns is within the range of a double.\<close>

lemma BSAmericanCallApprox_sane:
  assumes "BSAmericanCallApprox S X T r b v = Inr (Finite p)"
  shows "is_sane p"
proof (cases "b \<ge> r")
  case True
  with assms have "returned (gbs 1 S X T r b v) = Inr (Finite p)"
    by (simp add: BSAmericanCallApprox_def split: if_splits)
  then have "gbs 1 S X T r b v = Inr p"
    by (simp add: returned_def split: sum.splits)
  then show ?thesis by (rule gbs_sane)
next
  case nbr: False
  show ?thesis
  proof (cases "S \<ge> trigger X T r b v")
    case True
    with assms nbr have "valid_price S" "valid_strike X" "p = S - X"
      by (simp_all add: BSAmericanCallApprox_def Let_def split: if_splits)
    then show ?thesis by (simp add: price_minus_strike_sane)
  next
    case False
    with assms nbr obtain a c where "dadd a c = Finite p"
      by (auto simp: BSAmericanCallApprox_def Let_def bind_abort_def
          split: if_splits sum.splits)
    then show ?thesis by (rule dadd_sane)
  qed
qed

text \<open>
  C2 (as amended). With all six arguments inside the validated ranges, the put branch
  of \<open>BSAmericanApprox\<close> evaluates \<open>BSAmericanCallApprox X S T (r - b) (- b) v\<close> (price and
  strike swapped, rate \<open>r - b\<close>, cost of carry \<open>- b\<close>) and then asserts the result sane:
  a process terminated in the callee stays terminated, a finite value of the callee is
  returned unchanged, and an infinite or NaN value of the callee terminates the process
  at that last assertion.
\<close>

theorem american_put_is_transformed_call:
  assumes "valid_inputs S X T r b v"
  shows "case BSAmericanCallApprox X S T (r - b) (- b) v of
           Inl a \<Rightarrow> BSAmericanApprox Put S X T r b v = Inl a
         | Inr (Finite p) \<Rightarrow> BSAmericanApprox Put S X T r b v = Inr p
         | Inr _ \<Rightarrow> BSAmericanApprox Put S X T r b v = Inl AssertSane"
proof (cases "BSAmericanCallApprox X S T (r - b) (- b) v")
  case (Inl a)
  with assms show ?thesis by (simp add: BSAmericanApprox_def valid_inputs_def)
next
  case (Inr d)
  show ?thesis
  proof (cases d)
    case (Finite p)
    with Inr have "is_sane p" by (simp add: BSAmericanCallApprox_sane)
    with assms Inr Finite show ?thesis by (simp add: BSAmericanApprox_def valid_inputs_def)
  qed (use assms Inr in \<open>simp_all add: BSAmericanApprox_def valid_inputs_def\<close>)
qed

theorem american_put_is_transformed_call_witness:
  "valid_inputs 100 100 1 0 (- (1 / 20)) (1 / 5)
   \<and> BSAmericanCallApprox 100 100 1 (0 - - (1 / 20)) (- (- (1 / 20))) (1 / 5)
       = returned (gbs Call 100 100 1 (1 / 20) (1 / 20) (1 / 5))
   \<and> BSAmericanApprox Put 100 100 1 0 (- (1 / 20)) (1 / 5)
       = gbs Call 100 100 1 (1 / 20) (1 / 20) (1 / 5)"
proof -
  have v: "valid_inputs 100 100 1 0 (- (1 / 20)) (1 / 5)"
    and w: "valid_inputs 100 100 1 (1 / 20) (1 / 20) (1 / 5)"
    by (simp_all add: valid_inputs_def valid_defs range_defs)
  have c: "BSAmericanCallApprox 100 100 1 (0 - - (1 / 20)) (- (- (1 / 20))) (1 / 5)
      = returned (gbs Call 100 100 1 (1 / 20) (1 / 20) (1 / 5))"
    using w by (simp add: BSAmericanCallApprox_def valid_inputs_def)
  from american_put_is_transformed_call [OF v] c gbs_value_d [OF w, of Call] v
  show ?thesis by (simp add: returned_def)
qed

lemma phi_returns:
  assumes "valid_price S" and "valid_time T" and "valid_interest_rate r"
    and "valid_volatility v" and "0 < H" and "0 < I"
  shows "\<exists>p. phi S T g H I r b v = Inr p"
proof -
  have "0 < S" "0 < vst v T" "0 < v"
    using assms by (simp_all add: valid_price_pos vst_pos valid_time_pos valid_volatility_pos)
  then have "\<not> (H = 0 \<or> S / H \<le> 0 \<or> vst v T = 0 \<or> v * v = 0 \<or> I / S \<le> 0)"
    using assms(5,6) by (simp add: not_le)
  with assms(1-4) show ?thesis by (simp add: phi_def Let_def)
qed

lemma fin_unit: "0 \<le> x \<Longrightarrow> x \<le> 1 \<Longrightarrow> fin x = Finite x"
  by (rule fin_small) linarith+

lemma overflow_100_pow_201: "fin (100 powr 201) = PInf"
proof -
  have "(100::real) powr 201 = 100 ^ 201" by simp
  moreover have "DBL_MAX < (100::real) ^ 201" by (simp add: DBL_MAX_def)
  ultimately show ?thesis by (simp add: fin_def)
qed

text \<open>The locals of the early-exercise branch at \<open>X = 100\<close>, \<open>T = 1\<close>, \<open>r = 0\<close>,
  \<open>b = - 1/100\<close>, \<open>v = 1/100\<close>.\<close>

lemma overflow_input_locals:
  shows "Beta 0 (- (1 / 100)) (1 / 100) = 201"
    and "BInfinity 100 0 (- (1 / 100)) (1 / 100) = 201 / 2"
    and "B0 100 0 (- (1 / 100)) = 100"
    and "ht 100 1 0 (- (1 / 100)) (1 / 100) = - 2"
    and "trigger 100 1 0 (- (1 / 100)) (1 / 100) = 100 + 1 / 2 * (1 - exp (- 2))"
proof -
  have "sqrt (40401 / 4) = 201 / 2"
    by (rule real_sqrt_unique) (simp_all add: power2_eq_square)
  then show B: "Beta 0 (- (1 / 100)) (1 / 100) = 201"
    by (simp add: Beta_def pow2_def)
  show BI: "BInfinity 100 0 (- (1 / 100)) (1 / 100) = 201 / 2"
    by (simp add: BInfinity_def B)
  show b0: "B0 100 0 (- (1 / 100)) = 100" by (simp add: B0_def)
  show h: "ht 100 1 0 (- (1 / 100)) (1 / 100) = - 2"
    by (simp add: ht_def BI b0)
  show "trigger 100 1 0 (- (1 / 100)) (1 / 100) = 100 + 1 / 2 * (1 - exp (- 2))"
    by (simp add: trigger_def BI b0 h)
qed

lemma overflow_input_call:
  "\<exists>d. BSAmericanCallApprox 100 100 1 0 (- (1 / 100)) (1 / 100) = Inr d \<and> \<not> is_finite d"
proof -
  note L = overflow_input_locals
  define I where "I = trigger 100 1 0 (- (1 / 100)) (1 / 100)"
  have e: "0 < exp (- 2 :: real)" "exp (- 2 :: real) < 1" by simp_all
  have Ieq: "I = 100 + 1 / 2 * (1 - exp (- 2))" by (simp only: I_def L(5))
  have tr: "trigger 100 1 0 (- (1 / 100)) (1 / 100) = I" by (simp only: I_def)
  define E :: real where "E = exp (- 2)"
  have E: "0 < E" "E < 1" by (simp_all add: E_def)
  have Ieq': "I = 100 + (1 - E) / 2" by (simp add: Ieq E_def)
  have "100 < I" using E(2) unfolding Ieq' by simp
  moreover have "I \<le> 101" using E(1) unfolding Ieq' by simp
  ultimately have I: "100 < I" "I \<le> 101" by blast+
  have vs: "valid_price 100" "valid_strike 100" "valid_time 1" "valid_interest_rate 0"
    "valid_volatility (1 / 100)"
    by (simp_all add: valid_defs range_defs)
  have sane: "is_sane (1 / 100 * (1 / 100))" "is_sane 201" "is_sane (201 / 200)"
    "is_sane (201 / 2)" "is_sane 100" "is_sane (- 1)" "is_sane (- 2)"
    by (intro is_sane_small; simp)+
  have sane_e: "is_sane (exp (- 2))"
  proof -
    have "is_sane E" using E by (intro is_sane_small) simp_all
    then show ?thesis by (simp add: E_def)
  qed
  have sane_I: "is_sane I"
  proof (rule is_sane_small)
    show "- 1000000000000000000 \<le> I" using I(1) by linarith
    show "I \<le> 1000000000000000000" using I(2) by linarith
  qed
  have I0: "0 < I" "(0::real) < 100" using I by simp_all
  note at_I = phi_returns [OF vs(1,3,4,5) I0(1) I0(1)]
  note at_X = phi_returns [OF vs(1,3,4,5) I0(2) I0(1)]
  obtain p1 where p1: "phi 100 1 201 I I 0 (- (1 / 100)) (1 / 100) = Inr p1"
    using at_I by blast
  obtain p2 where p2: "phi 100 1 1 I I 0 (- (1 / 100)) (1 / 100) = Inr p2"
    using at_I by blast
  obtain p3 where p3: "phi 100 1 1 100 I 0 (- (1 / 100)) (1 / 100) = Inr p3"
    using at_X by blast
  obtain p4 where p4: "phi 100 1 0 I I 0 (- (1 / 100)) (1 / 100) = Inr p4"
    using at_I by blast
  obtain p5 where p5: "phi 100 1 0 100 I 0 (- (1 / 100)) (1 / 100) = Inr p5"
    using at_X by blast
  note p = p1 p2 p3 p4 p5
  have "I powr (- 201) \<le> I powr 0" using I by (intro powr_mono) simp_all
  then have "0 < I powr (- 201)" "I powr (- 201) \<le> 1"
    using I by simp_all
  have f: "fin (I powr (- 201)) = Finite (I powr (- 201))"
    using \<open>I powr (- 201) \<le> 1\<close> by (intro fin_unit) simp_all
  have a: "0 < (I - 100) * I powr (- 201)" "(I - 100) * I powr (- 201) \<le> 1"
    using I \<open>0 < I powr (- 201)\<close> \<open>I powr (- 201) \<le> 1\<close>
      mult_mono [of "I - 100" 1 "I powr (- 201)" 1] by simp_all
  then have "fin ((I - 100) * I powr (- 201)) = Finite ((I - 100) * I powr (- 201))"
    by (intro fin_unit) linarith+
  then have al: "dmul (Finite (I - 100)) (fin (I powr (- 201)))
      = Finite ((I - 100) * I powr (- 201))"
    by (simp add: f)
  have top: "dmul (Finite ((I - 100) * I powr (- 201))) (fin (100 powr 201)) = PInf"
    using a(1) I overflow_100_pow_201 by simp
  let ?d = "dadd (dsub (dsub (dadd (dsub PInf (dmul (Finite ((I - 100) * I powr (- 201))) p1)) p2) p3)
                  (dmul (Finite 100) p4)) (dmul (Finite 100) p5)"
  have "BSAmericanCallApprox 100 100 1 0 (- (1 / 100)) (1 / 100) = Inr ?d"
    unfolding BSAmericanCallApprox_def
    using vs sane sane_e sane_I I p al top
    by (simp add: L(1-4) tr Let_def pow2_def bind_abort_def)
  moreover have "\<not> is_finite ?d"
    by (intro dadd_nonfinite_left dsub_nonfinite_left) simp
  ultimately show ?thesis by blast
qed

text \<open>
  The put does more than evaluate the transformed call. At \<open>S = X = 100\<close>, \<open>T = 1\<close>,
  \<open>r = b = 1/100\<close>, \<open>v = 1/100\<close> the callee takes its last branch, where \<open>pow(S, Beta)\<close> is
  \<open>100\<^sup>2\<^sup>0\<^sup>1\<close> and overflows; no assertion of the callee fails and it returns a value that
  is not finite, and the put is terminated by its own \<open>assert(is_sane(result))\<close>.
\<close>

theorem put_aborts_where_call_returns:
  "valid_inputs 100 100 1 (1 / 100) (1 / 100) (1 / 100)
   \<and> \<not> isl (BSAmericanCallApprox 100 100 1 (1 / 100 - 1 / 100) (- (1 / 100)) (1 / 100))
   \<and> \<not> is_finite (projr (BSAmericanCallApprox 100 100 1 (1 / 100 - 1 / 100) (- (1 / 100)) (1 / 100)))
   \<and> BSAmericanApprox Put 100 100 1 (1 / 100) (1 / 100) (1 / 100) = Inl AssertSane
   \<and> returned (BSAmericanApprox Put 100 100 1 (1 / 100) (1 / 100) (1 / 100))
       \<noteq> BSAmericanCallApprox 100 100 1 (1 / 100 - 1 / 100) (- (1 / 100)) (1 / 100)"
proof -
  have v: "valid_inputs 100 100 1 (1 / 100) (1 / 100) (1 / 100)"
    by (simp add: valid_inputs_def valid_defs range_defs)
  obtain d where d: "BSAmericanCallApprox 100 100 1 0 (- (1 / 100)) (1 / 100) = Inr d"
    "\<not> is_finite d"
    using overflow_input_call by blast
  have "BSAmericanApprox Put 100 100 1 (1 / 100) (1 / 100) (1 / 100) = Inl AssertSane"
    using v d by (cases d) (simp_all add: BSAmericanApprox_def valid_inputs_def)
  with v d show ?thesis by (simp add: returned_def)
qed

subsection \<open>Zero time to expiry\<close>

lemma fin_zero: "fin 0 = Finite 0"
  by (rule fin_small) simp_all

lemma fin_one: "fin 1 = Finite 1"
  by (rule fin_small) simp_all

lemma dmul_NaN: "dmul a NaN = NaN" "dmul NaN a = NaN"
  by (cases a; simp)+

lemma dadd_NaN: "dadd a NaN = NaN" "dadd NaN a = NaN"
  by (cases a; simp)+

lemma dsub_NaN: "dsub a NaN = NaN" "dsub NaN a = NaN"
  by (simp_all add: dsub_def dadd_NaN)

lemma ddiv_NaN: "ddiv a NaN = NaN" "ddiv NaN a = NaN"
  by (cases a; simp)+

lemma cnd_d_NaN: "cnd_d NaN = NaN"
  by (simp add: cnd_d_def Let_def dmul_NaN dadd_NaN dsub_NaN ddiv_NaN)

lemma dmul_zero_cases: "dmul a (Finite 0) = Finite 0 \<or> dmul a (Finite 0) = NaN"
  by (cases a) (simp_all add: fin_zero)

text \<open>With \<open>T = 0\<close> and \<open>S = X\<close> the quotient that defines \<open>d1\<close> is \<open>0 / 0\<close>.\<close>

lemma blackscholes_ndebug_zero_time:
  assumes "S \<noteq> 0"
  shows "blackscholes_ndebug fCall S S 0 r v = NaN"
proof -
  let ?t = "dmul (dadd (Finite r) (ddiv (dmul (Finite v) (Finite v)) (Finite 2.0))) (Finite 0)"
  have vst: "dmul (Finite v) (dsqrt (Finite 0)) = Finite 0" by (simp add: fin_zero)
  have lg: "dlog (ddiv (Finite S) (Finite S)) = Finite 0"
    using assms by (simp add: fin_one)
  have "ddiv (dadd (Finite 0) ?t) (Finite 0) = NaN"
    using dmul_zero_cases [of "dadd (Finite r) (ddiv (dmul (Finite v) (Finite v)) (Finite 2.0))"]
    by (auto simp: fin_zero)
  then show ?thesis
    unfolding blackscholes_ndebug_def vst lg Let_def
    by (simp add: cnd_d_NaN dsub_NaN dmul_NaN)
qed

subsection \<open>Rounding\<close>

lemma rne_of_int: "rne (of_int n) = n"
  by (simp add: rne_def)

lemma rnd_zero: "rnd 0 = 0"
  by (simp add: rnd_def)

lemma rnd_exact:
  fixes m k :: int
  assumes "\<bar>m\<bar> < 2 ^ 53" and "- 1074 \<le> k"
  shows "rnd (of_int m * 2 powr of_int k) = of_int m * 2 powr of_int k"
proof (cases "m = 0")
  case True
  then show ?thesis by (simp add: rnd_def)
next
  case False
  let ?x = "of_int m * 2 powr of_int k :: real"
  have x0: "?x \<noteq> 0" using False by simp
  have "(of_int \<bar>m\<bar> :: real) < of_int (2 ^ 53)" using assms(1) by (simp only: of_int_less_iff)
  then have m: "(of_int \<bar>m\<bar> :: real) < 2 powr 53" by simp
  have "\<bar>?x\<bar> = of_int \<bar>m\<bar> * 2 powr of_int k" by (simp add: abs_mult)
  also have "\<dots> < 2 powr 53 * 2 powr of_int k"
    using m by (intro mult_strict_right_mono) simp_all
  also have "\<dots> = 2 powr (53 + of_int k)" by (simp add: powr_add)
  finally have "log 2 \<bar>?x\<bar> < 53 + of_int k"
    using x0 by (subst log_less_iff) simp_all
  then have "log 2 \<bar>?x\<bar> < of_int (53 + k)" by simp
  then have "\<lfloor>log 2 \<bar>?x\<bar>\<rfloor> < 53 + k" by (simp only: floor_less_iff)
  then have "ulp_exp ?x \<le> k" using assms(2) by (simp add: ulp_exp_def)
  then obtain e where e: "ulp_exp ?x = e" "e \<le> k" by blast
  define j where "j = nat (k - e)"
  have k: "k = e + int j" using e(2) by (simp add: j_def)
  have pk: "(2::real) powr of_int k = 2 ^ j * 2 powr of_int e"
    unfolding k by (simp add: powr_add powr_realpow)
  have "?x / 2 powr of_int e = of_int m * 2 ^ j"
    unfolding pk by simp
  also have "\<dots> = of_int (m * 2 ^ j)" by simp
  finally have q: "?x / 2 powr of_int e = of_int (m * 2 ^ j)" .
  have "rnd ?x = of_int (rne (?x / 2 powr of_int e)) * 2 powr of_int e"
    using x0 unfolding rnd_def e(1) by (simp only: if_False)
  also have "\<dots> = of_int (m * 2 ^ j) * 2 powr of_int e"
    by (simp only: q rne_of_int)
  also have "\<dots> = of_int m * (2 ^ j * 2 powr of_int e)" by simp
  also have "\<dots> = ?x" by (simp only: pk)
  finally show ?thesis .
qed


lemma two_powr_neg: "(2::real) powr (- real n) = 1 / 2 ^ n"
  by (simp add: powr_minus powr_realpow divide_inverse)

lemma rnd_one: "rnd 1 = 1"
  using rnd_exact [of 1 0] by simp

lemma rnd_dyadic:
  assumes "n \<le> 1074"
  shows "rnd (1 / 2 ^ n) = 1 / 2 ^ n"
proof -
  have p: "(2::real) powr of_int (- int n) = 1 / 2 ^ n"
    using two_powr_neg [of n] by simp
  have "rnd (of_int 1 * 2 powr of_int (- int n)) = of_int 1 * 2 powr of_int (- int n)"
    using assms by (intro rnd_exact) simp_all
  then show ?thesis unfolding p by simp
qed

lemma rnd_half: "rnd (1 / 2) = 1 / 2" "rnd (- (1 / 2)) = - (1 / 2)"
  using rnd_exact [of 1 "- 1"] rnd_exact [of "- 1" "- 1"] two_powr_neg [of 1] by simp_all

lemma rnd_quarter: "rnd (1 / 4) = 1 / 4"
  using rnd_dyadic [of 2] by simp



text \<open>A quarter plus \<open>2\<^sup>-\<^sup>6\<^sup>7\<close> is nearer to a quarter than to the next binary64 number,
  \<open>1/4 + 2\<^sup>-\<^sup>5\<^sup>4\<close>.\<close>

lemma rnd_quarter_plus: "rnd (1 / 4 + 1 / 2 ^ 67) = 1 / 4"
proof -
  let ?x = "1 / 4 + 1 / 2 ^ 67 :: real"
  have "2 powr (- 2) \<le> ?x" "?x < 2 powr (- 1)"
    using two_powr_neg [of 2] two_powr_neg [of 1] by simp_all
  then have "of_int (- 2) \<le> log 2 \<bar>?x\<bar>" "log 2 \<bar>?x\<bar> < of_int (- 2) + 1"
    by (simp_all add: le_log_iff log_less_iff)
  then have "\<lfloor>log 2 \<bar>?x\<bar>\<rfloor> = - 2" by (intro floor_unique)
  then have e: "ulp_exp ?x = - 54" by (simp add: ulp_exp_def)
  have p: "(2::real) powr (- 54) = 1 / 2 ^ 54" using two_powr_neg [of 54] by simp
  have y: "?x / (1 / 2 ^ 54) = 2 ^ 52 + 1 / 2 ^ 13" by simp
  have f: "\<lfloor>2 ^ 52 + 1 / 2 ^ 13 :: real\<rfloor> = 2 ^ 52"
    by (intro floor_unique) simp_all
  have "rne (2 ^ 52 + 1 / 2 ^ 13) = 2 ^ 52"
    unfolding rne_def f by (simp add: Let_def)
  then have "rnd ?x = of_int (2 ^ 52) * (1 / 2 ^ 54)"
    unfolding rnd_def e by (simp only: of_int_minus of_int_numeral p y) simp
  then show ?thesis by simp
qed

text \<open>At \<open>r = 2\<^sup>-\<^sup>7\<^sup>0\<close>, \<open>b = 0\<close>, \<open>v = 1/2\<close> every operation of \<open>Beta\<close> but one is exact, and
  the sum under the root rounds to a quarter: the computed \<open>Beta\<close> is exactly 1.\<close>

lemma Beta_fl_rounds_to_one:
  assumes "rnd (1 / 4 + rnd (rnd (2 * r) / (1 / 4))) = 1 / 4"
  shows "Beta_fl r 0 (1 / 2) = 1"
proof -
  have s: "sqrt (1 / 4) = 1 / 2"
    by (rule real_sqrt_unique) (simp_all add: power2_eq_square)
  have vv: "rnd (1 / 2 * (1 / 2)) = 1 / 4" using rnd_quarter by simp
  have h: "rnd (0 - 0.5) = - (1 / 2)" "rnd (0.5 - 0) = 1 / 2" using rnd_half by simp_all
  have hh: "rnd (- (1 / 2) * - (1 / 2)) = 1 / 4" using rnd_quarter by simp
  have q: "rnd (0 / (1 / 4)) = 0" by (simp add: rnd_zero)
  have last: "rnd (1 / 2 + rnd (1 / 2)) = 1" by (simp add: rnd_half(1) rnd_one)
  have two: "(2.0::real) = 2" by simp
  show ?thesis
    unfolding Beta_fl_def Let_def vv q h hh two assms s last ..
qed

lemma Beta_fl_is_one: "Beta_fl (1 / 2 ^ 70) 0 (1 / 2) = 1"
proof (rule Beta_fl_rounds_to_one)
  have a: "(2::real) * (1 / 2 ^ 70) = 1 / 2 ^ 69" by simp
  have b: "(1 / 2 ^ 69 :: real) / (1 / 4) = 1 / 2 ^ 67" by simp
  have c: "rnd (1 / 2 ^ 69) = 1 / 2 ^ 69" by (rule rnd_dyadic) simp
  have d: "rnd (1 / 2 ^ 67) = 1 / 2 ^ 67" by (rule rnd_dyadic) simp
  show "rnd (1 / 4 + rnd (rnd (2 * (1 / 2 ^ 70)) / (1 / 4))) = 1 / 4"
    unfolding a c b d by (rule rnd_quarter_plus)
qed

lemma BInfinity_fl_is_infinite: "BInfinity_fl 100 (1 / 2 ^ 70) 0 (1 / 2) = PInf"
  unfolding BInfinity_fl_def Beta_fl_is_one by (simp add: rnd_zero)



subsection \<open>Zero time to expiry: the claim\<close>

text \<open>
  Compiled with \<open>NDEBUG\<close>, \<open>blackscholes\<close> with \<open>T = 0\<close> checks nothing, evaluates the
  formula and, at \<open>S = X = 100\<close>, returns NaN.
\<close>

theorem zero_time_without_assertions:
  "valid_price 100 \<and> valid_strike 100
   \<and> blackscholes_ndebug Call 100 100 0 (1 / 20) (1 / 5) = NaN
   \<and> \<not> is_finite (blackscholes_ndebug Call 100 100 0 (1 / 20) (1 / 5))"
  using blackscholes_ndebug_zero_time [of 100 Call "1 / 20" "1 / 5"]
  by (simp add: valid_defs range_defs)

text \<open>
  C7 (as amended). With assertions compiled in, \<open>blackscholes\<close> with \<open>T = 0\<close> is stopped by
  a failing \<open>assert_valid_*\<close> check before any formula is evaluated, whatever the other
  arguments are; with a valid price and strike, which are asserted first, it is the
  assertion on the time argument. The assertion terminates the process: no error value
  is returned to the caller. Compiled with \<open>NDEBUG\<close> nothing is checked, and with
  \<open>S = X\<close> the call divides \<open>0\<close> by \<open>vst = 0\<close> and returns NaN.
\<close>

theorem blackscholes_rejects_zero_time:
  "(\<exists>p. blackscholes fCall S X 0 r v = Inl (AssertValid p))
   \<and> (valid_price S \<and> valid_strike X \<longrightarrow>
        blackscholes fCall S X 0 r v = Inl (AssertValid Time))
   \<and> (S \<noteq> 0 \<longrightarrow> blackscholes_ndebug fCall S S 0 r v = NaN)"
  using blackscholes_ndebug_zero_time [of S fCall r v]
  by (simp add: blackscholes_def valid_time_iff TIME_MIN_def)

theorem blackscholes_rejects_zero_time_witness:
  "valid_price 100 \<and> valid_strike 100 \<and> (100::real) \<noteq> 0
   \<and> blackscholes Call 100 100 0 0.05 0.2 = Inl (AssertValid Time)
   \<and> blackscholes_ndebug Call 100 100 0 0.05 0.2 = NaN"
  using blackscholes_rejects_zero_time [of Call 100 100 "0.05" "0.2"]
  by (simp add: valid_defs range_defs)

subsection \<open>The early-exercise branch: the claim\<close>

text \<open>
  In binary64 arithmetic the elasticity is not always above 1. At \<open>r = 2\<^sup>-\<^sup>7\<^sup>0\<close>, \<open>b = 0\<close>,
  \<open>v = 1/2\<close> (with \<open>S = X = 100\<close>, \<open>T = 1\<close>: all inside the validated ranges, and \<open>b < r\<close>) the
  computed \<open>Beta\<close> is exactly 1, \<open>Beta - 1.0\<close> is zero, and \<open>Beta / (Beta - 1.0) * X\<close> is
  infinite, which \<open>assert(is_sane(BInfinity))\<close> answers by terminating the process.
\<close>

theorem computed_Beta_is_one:
  "valid_inputs 100 100 1 (1 / 2 ^ 70) 0 (1 / 2) \<and> (0::real) < 1 / 2 ^ 70
   \<and> Beta_fl (1 / 2 ^ 70) 0 (1 / 2) = 1
   \<and> rnd (Beta_fl (1 / 2 ^ 70) 0 (1 / 2) - 1.0) = 0
   \<and> BInfinity_fl 100 (1 / 2 ^ 70) 0 (1 / 2) = PInf"
proof -
  have "valid_inputs 100 100 1 (1 / 2 ^ 70) 0 (1 / 2)"
    by (simp add: valid_inputs_def valid_defs range_defs)
  moreover have "rnd (Beta_fl (1 / 2 ^ 70) 0 (1 / 2) - 1.0) = 0"
    unfolding Beta_fl_is_one by (simp add: rnd_zero)
  ultimately show ?thesis
    using Beta_fl_is_one BInfinity_fl_is_infinite by simp
qed

text \<open>
  C8 (as amended). In exact arithmetic, with all arguments inside the validated ranges
  and \<open>b < r\<close>, the elasticity \<open>Beta\<close> exceeds 1, so \<open>Beta - 1\<close> is not zero and
  \<open>BInfinity = Beta / (Beta - 1) * X\<close> exceeds \<open>X\<close>; the denominator \<open>r - b\<close> of \<open>B0\<close> is
  not zero either. In binary64 arithmetic this is not so for every such input: at
  \<open>r = 2\<^sup>-\<^sup>7\<^sup>0\<close>, \<open>b = 0\<close>, \<open>v = 1/2\<close> the computed \<open>Beta\<close> is exactly 1 and the computed
  \<open>BInfinity\<close> is not finite.
\<close>

theorem early_exercise_divisions_safe:
  assumes "valid_inputs S X T r b v" and "b < r"
  shows "Beta r b v > 1 \<and> Beta r b v - 1 \<noteq> 0
         \<and> BInfinity X r b v > X \<and> r - b \<noteq> 0
         \<and> Beta_fl (1 / 2 ^ 70) 0 (1 / 2) = 1
         \<and> \<not> is_finite (BInfinity_fl 100 (1 / 2 ^ 70) 0 (1 / 2))"
proof -
  from assms(1) have "0 < v" "0 < X"
    by (simp_all add: valid_inputs_def valid_volatility_pos valid_strike_pos)
  with assms(2) have "Beta r b v > 1 \<and> Beta r b v - 1 \<noteq> 0
         \<and> BInfinity X r b v > X \<and> r - b \<noteq> 0"
    using Beta_gt_one [of v b r] BInfinity_gt_strike [of v b r X] by simp
  moreover have "\<not> is_finite (BInfinity_fl 100 (1 / 2 ^ 70) 0 (1 / 2))"
    unfolding BInfinity_fl_is_infinite by simp
  ultimately show ?thesis using Beta_fl_is_one by blast
qed

theorem early_exercise_divisions_safe_witness:
  "valid_inputs 100 100 0.5 0.1 0.05 0.3 \<and> (0.05::real) < 0.1
   \<and> Beta 0.1 0.05 0.3 > 1 \<and> BInfinity 100 0.1 0.05 0.3 > 100"
proof -
  have v: "valid_inputs 100 100 0.5 0.1 0.05 0.3"
    by (simp add: valid_inputs_def valid_defs range_defs)
  have "(0.05::real) < 0.1" by simp
  from early_exercise_divisions_safe [OF v this] v show ?thesis by simp
qed

subsection \<open>The cumulative normal approximation: the claim\<close>




end
